theory Spec2Isabelle
  imports Main "HOL-Library.Word"
begin

unbundle bit_operations_syntax

section \<open>The recovery journal decoder of rtpMidi_Parser_JournalSection.hpp\<close>

text \<open>
  The file holds one function, \<open>decodeJournalSection(buffer, i, minimumLen)\<close>. It walks the
  recovery journal of an RTP-MIDI packet: the journal header, then (when the A bit is set)
  the channel journals with their chapters. The cursor \<open>i\<close> and the budget \<open>minimumLen\<close>
  are reference parameters of type \<open>size_t\<close>; the model passes them as a record of two
  words and returns the record with every result, so that what an early \<open>return\<close> leaves
  in them is part of the result.
\<close>

subsection \<open>Integers, constants, buffer\<close>

type_synonym uint8_t = "8 word"
type_synonym uint16_t = "16 word"
type_synonym uint32_t = "32 word"

text \<open>
  The macros the function uses are defined in another header of the library. They are taken
  as a parameter: a record with one field for each macro, at the width of the value it is
  combined with (\<open>flags\<close> is a \<open>uint8_t\<close>, \<open>chanflags\<close> a \<open>uint32_t\<close>, the Chapter N
  header a \<open>uint16_t\<close>; bits of a mask above that width meet zero bits only).
\<close>

record defs =
  RTP_MIDI_JS_FLAG_S :: uint8_t
  RTP_MIDI_JS_FLAG_Y :: uint8_t
  RTP_MIDI_JS_FLAG_A :: uint8_t
  RTP_MIDI_JS_FLAG_H :: uint8_t
  RTP_MIDI_JS_MASK_TOTALCHANNELS :: uint8_t
  RTP_MIDI_CJ_MASK_LENGTH :: uint32_t
  RTP_MIDI_CJ_FLAG_P :: uint32_t
  RTP_MIDI_CJ_FLAG_C :: uint32_t
  RTP_MIDI_CJ_FLAG_M :: uint32_t
  RTP_MIDI_CJ_FLAG_W :: uint32_t
  RTP_MIDI_CJ_FLAG_N :: uint32_t
  RTP_MIDI_CJ_FLAG_E :: uint32_t
  RTP_MIDI_CJ_FLAG_T :: uint32_t
  RTP_MIDI_CJ_FLAG_A :: uint32_t
  RTP_MIDI_CJ_CHAPTER_N_MASK_LENGTH :: uint16_t
  RTP_MIDI_CJ_CHAPTER_N_MASK_LOW :: uint16_t
  RTP_MIDI_CJ_CHAPTER_N_MASK_HIGH :: uint16_t
  RTP_MIDI_CJ_CHAPTER_E_MASK_LENGTH :: uint8_t
  RTP_MIDI_CJ_CHAPTER_A_MASK_LENGTH :: uint8_t

text \<open>
  Modelled from the spec: the values of the macros, which are not in the source file. The
  wire layout of the spec gives the top header byte as \<open>S|Y|A|H|TOTCHAN(4 bits)\<close>, the
  Chapter N header as \<open>LOGLISTLEN(7 bits)|LOW(4 bits)|HIGH(4 bits)\<close> read with the shifts
  8 and 4 of the source, and a 7-bit length field for the Chapters E and A. For the channel
  flags it gives the eight flags \<open>P,C,M,W,N,E,T,A\<close> followed by a 10-bit \<open>LENGTH\<close>; the
  source shifts the masked length right by 8, so \<open>LENGTH\<close> is put at the bits 8 to 17 of
  the assembled word and the flags directly above it. This assignment is used for concrete
  runs only; the general theorems hold for every value of the record.
\<close>

definition wire_defs :: defs where
  "wire_defs =
     \<lparr> RTP_MIDI_JS_FLAG_S = 0x80,
       RTP_MIDI_JS_FLAG_Y = 0x40,
       RTP_MIDI_JS_FLAG_A = 0x20,
       RTP_MIDI_JS_FLAG_H = 0x10,
       RTP_MIDI_JS_MASK_TOTALCHANNELS = 0x0F,
       RTP_MIDI_CJ_MASK_LENGTH = 0x0003FF00,
       RTP_MIDI_CJ_FLAG_P = 0x02000000,
       RTP_MIDI_CJ_FLAG_C = 0x01000000,
       RTP_MIDI_CJ_FLAG_M = 0x00800000,
       RTP_MIDI_CJ_FLAG_W = 0x00400000,
       RTP_MIDI_CJ_FLAG_N = 0x00200000,
       RTP_MIDI_CJ_FLAG_E = 0x00100000,
       RTP_MIDI_CJ_FLAG_T = 0x00080000,
       RTP_MIDI_CJ_FLAG_A = 0x00040000,
       RTP_MIDI_CJ_CHAPTER_N_MASK_LENGTH = 0x7F00,
       RTP_MIDI_CJ_CHAPTER_N_MASK_LOW = 0x00F0,
       RTP_MIDI_CJ_CHAPTER_N_MASK_HIGH = 0x000F,
       RTP_MIDI_CJ_CHAPTER_E_MASK_LENGTH = 0x7F,
       RTP_MIDI_CJ_CHAPTER_A_MASK_LENGTH = 0x7F \<rparr>"

text \<open>
  The cursor, the budget, the length of the buffer and the index of a read are \<open>size_t\<close>
  values: unsigned, of a width that the platform sets. They are words of a width \<open>'s\<close> that
  is left open, so that every addition wraps around as it does in C, at whatever width.
\<close>

text \<open>
  Modelled from the spec: the class \<open>RingBuffer\<close> is not in the source file. The spec
  describes the input as byte-addressable, length-queryable and peekable without
  consumption. \<open>getLength\<close> is the number of bytes available; \<open>peek\<close> is total, as a
  read from the ring's storage is: at an index beyond the available length it yields
  whatever the storage holds there.
\<close>

record (overloaded) ('s::len) buffer =
  getLength :: "'s word"
  peek :: "'s word \<Rightarrow> uint8_t"

text \<open>A buffer holding exactly the bytes of a list; the storage beyond them reads as 0.\<close>

definition bufferOf :: "uint8_t list \<Rightarrow> ('s::len) buffer" where
  "bufferOf bs =
     \<lparr> getLength = of_nat (length bs),
       peek = (\<lambda>k. if unat k < length bs then bs ! unat k else 0) \<rparr>"

text \<open>
  Modelled from the spec: the union \<open>conversionBuffer\<close> and \<open>ntohs\<close>/\<open>ntohl\<close> are not in
  the source file; the bytes stored in \<open>cb.buffer[0..]\<close> are assembled in network byte
  order (big-endian).
\<close>

definition ntohs_value16 :: "uint8_t \<Rightarrow> uint8_t \<Rightarrow> uint16_t" where
  "ntohs_value16 b0 b1 = push_bit 8 (ucast b0) OR ucast b1"

definition ntohl_value32 :: "uint8_t \<Rightarrow> uint8_t \<Rightarrow> uint8_t \<Rightarrow> uint8_t \<Rightarrow> uint32_t" where
  "ntohl_value32 b0 b1 b2 b3 =
     push_bit 24 (ucast b0) OR push_bit 16 (ucast b1) OR push_bit 8 (ucast b2) OR ucast b3"

subsection \<open>State and results\<close>

text \<open>
  \<open>cursor\<close> is the reference parameter \<open>i\<close>, \<open>minimumLen\<close> the reference parameter of that
  name.
\<close>

record (overloaded) ('s::len) state =
  cursor :: "'s word"
  minimumLen :: "'s word"

text \<open>
  The two statuses the source returns. Modelled from the spec: the success status \<open>Ok\<close>,
  for which the source file names no constant.
\<close>

datatype parser_status = Ok | PARSER_NOT_ENOUGH_DATA | PARSER_UNEXPECTED_DATA

text \<open>
  What a call does: it executes \<open>return v\<close>, or control reaches the closing brace of the
  function body without a return statement.
\<close>

datatype outcome = Returned parser_status | NoReturn

text \<open>
  Inside the function: \<open>Inl (v, s)\<close> is a \<open>return v\<close> with the references left at \<open>s\<close>,
  \<open>Inr s\<close> is execution going on with the references at \<open>s\<close>.
\<close>

type_synonym 's step = "(parser_status \<times> 's state) + 's state"

definition andThen :: "('s::len) step \<Rightarrow> ('s state \<Rightarrow> 's step) \<Rightarrow> 's step" where
  "andThen r f = (case r of Inl e \<Rightarrow> Inl e | Inr s \<Rightarrow> f s)"

text \<open>
  The length check, written at every place of the source as
  \<^verbatim>\<open>minimumLen += n; if (buffer.getLength() < minimumLen) return PARSER_NOT_ENOUGH_DATA;\<close>
\<close>

definition requireBytes :: "('s::len) buffer \<Rightarrow> 's word \<Rightarrow> 's state \<Rightarrow> 's step" where
  "requireBytes buf n s =
     (let s' = s\<lparr>minimumLen := minimumLen s + n\<rparr>
      in if getLength buf < minimumLen s' then Inl (PARSER_NOT_ENOUGH_DATA, s') else Inr s')"

text \<open>\<^verbatim>\<open>i += n\<close>, and \<open>n\<close> times \<^verbatim>\<open>i++\<close>.\<close>

definition advance :: "('s::len) word \<Rightarrow> 's state \<Rightarrow> 's state" where
  "advance n s = s\<lparr>cursor := cursor s + n\<rparr>"

subsection \<open>Chapters\<close>

text \<open>Chapter P (program change): lines 95 to 101.\<close>

definition chapterP :: "defs \<Rightarrow> ('s::len) buffer \<Rightarrow> uint32_t \<Rightarrow> 's state \<Rightarrow> 's step" where
  "chapterP d buf chanflags s =
     (if chanflags AND RTP_MIDI_CJ_FLAG_P d \<noteq> 0
      then andThen (requireBytes buf 3 s) (\<lambda>s. Inr (advance 3 s))
      else Inr s)"

text \<open>Chapters C (control) and M (parameter changes): the bodies of both tests are empty.\<close>

definition chapterC :: "defs \<Rightarrow> ('s::len) buffer \<Rightarrow> uint32_t \<Rightarrow> 's state \<Rightarrow> 's step" where
  "chapterC d buf chanflags s =
     (if chanflags AND RTP_MIDI_CJ_FLAG_C d \<noteq> 0 then Inr s else Inr s)"

definition chapterM :: "defs \<Rightarrow> ('s::len) buffer \<Rightarrow> uint32_t \<Rightarrow> 's state \<Rightarrow> 's step" where
  "chapterM d buf chanflags s =
     (if chanflags AND RTP_MIDI_CJ_FLAG_M d \<noteq> 0 then Inr s else Inr s)"

text \<open>Chapter W (pitch wheel): lines 114 to 120.\<close>

definition chapterW :: "defs \<Rightarrow> ('s::len) buffer \<Rightarrow> uint32_t \<Rightarrow> 's state \<Rightarrow> 's step" where
  "chapterW d buf chanflags s =
     (if chanflags AND RTP_MIDI_CJ_FLAG_W d \<noteq> 0
      then andThen (requireBytes buf 2 s) (\<lambda>s. Inr (advance 2 s))
      else Inr s)"

text \<open>
  Chapter N (note on/off): lines 123 to 171. The three fields of the header are
  \<open>uint8_t\<close> variables, so the shifted values are truncated to 8 bits. The sum
  \<open>(logListCount * 2) + offbitCount\<close> is computed on \<open>int\<close>, where it is at most 765, and
  converted to \<open>size_t\<close> when it is added to the budget and to the cursor.
\<close>

definition logListCountOf :: "defs \<Rightarrow> uint16_t \<Rightarrow> uint8_t" where
  "logListCountOf d header = ucast (drop_bit 8 (header AND RTP_MIDI_CJ_CHAPTER_N_MASK_LENGTH d))"

definition lowOf :: "defs \<Rightarrow> uint16_t \<Rightarrow> uint8_t" where
  "lowOf d header = ucast (drop_bit 4 (header AND RTP_MIDI_CJ_CHAPTER_N_MASK_LOW d))"

definition highOf :: "defs \<Rightarrow> uint16_t \<Rightarrow> uint8_t" where
  "highOf d header = ucast (header AND RTP_MIDI_CJ_CHAPTER_N_MASK_HIGH d)"

text \<open>
  The number of offbit octets (lines 138 to 146); \<open>None\<close> is the branch that returns
  \<open>PARSER_UNEXPECTED_DATA\<close>. \<open>offbitCount\<close> is a \<open>uint8_t\<close>: the sum is taken modulo 256.
\<close>

definition offbitCountOf :: "uint8_t \<Rightarrow> uint8_t \<Rightarrow> uint8_t option" where
  "offbitCountOf low high =
     (if low \<le> high then Some (high - low + 1)
      else if low = 15 \<and> high = 0 then Some 0
      else if low = 15 \<and> high = 1 then Some 0
      else None)"

text \<open>The special case of lines 149 to 153: no offbit octets, but 128 note logs.\<close>

definition escapedLogListCount :: "uint8_t \<Rightarrow> uint8_t \<Rightarrow> uint8_t \<Rightarrow> uint8_t" where
  "escapedLogListCount logListCount low high =
     (if logListCount = 127 \<and> low = 15 \<and> high = 0 then 128 else logListCount)"

definition chapterN :: "defs \<Rightarrow> ('s::len) buffer \<Rightarrow> uint32_t \<Rightarrow> 's state \<Rightarrow> 's step" where
  "chapterN d buf chanflags s =
     (if chanflags AND RTP_MIDI_CJ_FLAG_N d \<noteq> 0
      then andThen (requireBytes buf 2 s) (\<lambda>s.
        let header = ntohs_value16 (peek buf (cursor s)) (peek buf (cursor s + 1));
            s = advance 2 s;
            logListCount = logListCountOf d header;
            low = lowOf d header;
            high = highOf d header
        in case offbitCountOf low high of
             None \<Rightarrow> Inl (PARSER_UNEXPECTED_DATA, s)
           | Some offbitCount \<Rightarrow>
               let n = of_nat
                         (unat (escapedLogListCount logListCount low high) * 2 + unat offbitCount)
               in andThen (requireBytes buf n s) (\<lambda>s. Inr (advance n s)))
      else Inr s)"

text \<open>
  The loops of the Chapters E and A read two bytes in each pass and drop them:
  \<^verbatim>\<open>for (auto j = 0; j < log_count; j++) { buffer.peek(i++); buffer.peek(i++); }\<close>
\<close>

primrec walkEntries :: "nat \<Rightarrow> ('s::len) state \<Rightarrow> 's state" where
  "walkEntries 0 s = s"
| "walkEntries (Suc j) s = walkEntries j (advance 1 (advance 1 s))"

text \<open>
  Chapter E (note command extras): lines 174 to 195. \<open>log_count\<close> is a \<open>uint8_t\<close>
  incremented by \<open>log_count++\<close>; \<open>log_count * 2\<close> is computed on \<open>int\<close> and converted to
  \<open>size_t\<close>.
\<close>

definition chapterE :: "defs \<Rightarrow> ('s::len) buffer \<Rightarrow> uint32_t \<Rightarrow> 's state \<Rightarrow> 's step" where
  "chapterE d buf chanflags s =
     (if chanflags AND RTP_MIDI_CJ_FLAG_E d \<noteq> 0
      then andThen (requireBytes buf 1 s) (\<lambda>s.
        let header = peek buf (cursor s);
            s = advance 1 s;
            log_count = (header AND RTP_MIDI_CJ_CHAPTER_E_MASK_LENGTH d) + 1
        in andThen (requireBytes buf (of_nat (unat log_count * 2)) s) (\<lambda>s.
             Inr (walkEntries (unat log_count) s)))
      else Inr s)"

text \<open>Chapter T (channel aftertouch): lines 198 to 205.\<close>

definition chapterT :: "defs \<Rightarrow> ('s::len) buffer \<Rightarrow> uint32_t \<Rightarrow> 's state \<Rightarrow> 's step" where
  "chapterT d buf chanflags s =
     (if chanflags AND RTP_MIDI_CJ_FLAG_T d \<noteq> 0
      then andThen (requireBytes buf 1 s) (\<lambda>s. Inr (advance 1 s))
      else Inr s)"

text \<open>Chapter A (poly aftertouch): lines 208 to 225.\<close>

definition chapterA :: "defs \<Rightarrow> ('s::len) buffer \<Rightarrow> uint32_t \<Rightarrow> 's state \<Rightarrow> 's step" where
  "chapterA d buf chanflags s =
     (if chanflags AND RTP_MIDI_CJ_FLAG_A d \<noteq> 0
      then andThen (requireBytes buf 2 s) (\<lambda>s.
        let flags = peek buf (cursor s);
            s = advance 1 s;
            log_count = (flags AND RTP_MIDI_CJ_CHAPTER_A_MASK_LENGTH d) + 1
        in Inr (walkEntries (unat log_count) s))
      else Inr s)"

subsection \<open>Channel journals and the journal header\<close>

text \<open>
  The 24-bit field at the head of a channel journal (lines 86 to 91): three bytes and a
  fourth byte 0 in \<open>cb.buffer[3]\<close>, converted as a 32-bit value.
\<close>

definition chanflagsAt :: "('s::len) buffer \<Rightarrow> 's word \<Rightarrow> uint32_t" where
  "chanflagsAt buf k = ntohl_value32 (peek buf k) (peek buf (k + 1)) (peek buf (k + 2)) 0"

text \<open>Line 92; the value is not used afterwards.\<close>

definition chanjourlen :: "defs \<Rightarrow> uint32_t \<Rightarrow> uint16_t" where
  "chanjourlen d chanflags = ucast (drop_bit 8 (chanflags AND RTP_MIDI_CJ_MASK_LENGTH d))"

text \<open>
  The chapters of one channel journal, in the order of the source: those before Chapter N,
  then Chapter N and the ones after it.
\<close>

definition chaptersBeforeN :: "defs \<Rightarrow> ('s::len) buffer \<Rightarrow> uint32_t \<Rightarrow> 's state \<Rightarrow> 's step" where
  "chaptersBeforeN d buf chanflags s =
     andThen (chapterP d buf chanflags s) (\<lambda>s.
     andThen (chapterC d buf chanflags s) (\<lambda>s.
     andThen (chapterM d buf chanflags s) (\<lambda>s.
     chapterW d buf chanflags s)))"

definition chapters :: "defs \<Rightarrow> ('s::len) buffer \<Rightarrow> uint32_t \<Rightarrow> 's state \<Rightarrow> 's step" where
  "chapters d buf chanflags s =
     andThen (chaptersBeforeN d buf chanflags s) (\<lambda>s.
     andThen (chapterN d buf chanflags s) (\<lambda>s.
     andThen (chapterE d buf chanflags s) (\<lambda>s.
     andThen (chapterT d buf chanflags s) (\<lambda>s.
     chapterA d buf chanflags s))))"

text \<open>One pass of the loop over the channel journals (lines 85 to 226).\<close>

definition channelJournal :: "defs \<Rightarrow> ('s::len) buffer \<Rightarrow> 's state \<Rightarrow> 's step" where
  "channelJournal d buf s =
     (let chanflags = chanflagsAt buf (cursor s);
          s = advance 3 s
      in chapters d buf chanflags s)"

text \<open>\<^verbatim>\<open>for (auto j = 0; j < totalChannels; j++)\<close>: the argument counts the passes left.\<close>

primrec channelJournals :: "defs \<Rightarrow> ('s::len) buffer \<Rightarrow> nat \<Rightarrow> 's state \<Rightarrow> 's step" where
  "channelJournals d buf 0 s = Inr s"
| "channelJournals d buf (Suc n) s = andThen (channelJournal d buf s) (channelJournals d buf n)"

text \<open>
  The body of \<open>decodeJournalSection\<close>. The tests of the S, Y and H bits have empty bodies;
  \<open>checkPoint\<close> is read and not used.
\<close>

definition totalChannelsOf :: "defs \<Rightarrow> uint8_t \<Rightarrow> uint8_t" where
  "totalChannelsOf d flags = (flags AND RTP_MIDI_JS_MASK_TOTALCHANNELS d) + 1"

definition journalBody :: "defs \<Rightarrow> ('s::len) buffer \<Rightarrow> 's state \<Rightarrow> 's step" where
  "journalBody d buf s =
     andThen (requireBytes buf 1 s) (\<lambda>s.
       let flags = peek buf (cursor s);
           s = advance 1 s;
           totalChannels = totalChannelsOf d flags
       in andThen (requireBytes buf 2 s) (\<lambda>s.
            let s = advance 2 s
            in if flags AND RTP_MIDI_JS_FLAG_A d \<noteq> 0
               then andThen (requireBytes buf 3 s) (channelJournals d buf (unat totalChannels))
               else Inr s))"

text \<open>
  The call: a \<open>return\<close> inside the body, or the end of the body reached with no return
  statement (there is none after the test of the H bit).
\<close>

definition finish :: "('s::len) step \<Rightarrow> outcome \<times> 's state" where
  "finish r = (case r of Inl (v, s') \<Rightarrow> (Returned v, s') | Inr s' \<Rightarrow> (NoReturn, s'))"

definition decodeJournalSection ::
    "defs \<Rightarrow> ('s::len) buffer \<Rightarrow> 's state \<Rightarrow> outcome \<times> 's state" where
  "decodeJournalSection d buf s = finish (journalBody d buf s)"

subsection \<open>The Chapter N headers a run reads\<close>

text \<open>
  The pairs \<open>(low, high)\<close> of the Chapter N headers that a run reads, in the order in which
  it reads them: a header is read when Chapter N is entered with its flag set and the check
  for the two header bytes passes. A run enters Chapter N of a channel journal when the
  chapters before it have not returned, and starts a channel journal when the ones before it
  have not returned.
\<close>

definition chapterN_pairs ::
    "defs \<Rightarrow> ('s::len) buffer \<Rightarrow> uint32_t \<Rightarrow> 's state \<Rightarrow> (uint8_t \<times> uint8_t) list" where
  "chapterN_pairs d buf chanflags s =
     (if chanflags AND RTP_MIDI_CJ_FLAG_N d \<noteq> 0 \<and> \<not> getLength buf < minimumLen s + 2
      then let header = ntohs_value16 (peek buf (cursor s)) (peek buf (cursor s + 1))
           in [(lowOf d header, highOf d header)]
      else [])"

definition channelJournal_pairs ::
    "defs \<Rightarrow> ('s::len) buffer \<Rightarrow> 's state \<Rightarrow> (uint8_t \<times> uint8_t) list" where
  "channelJournal_pairs d buf s =
     (let chanflags = chanflagsAt buf (cursor s)
      in case chaptersBeforeN d buf chanflags (advance 3 s) of
           Inl e \<Rightarrow> []
         | Inr s' \<Rightarrow> chapterN_pairs d buf chanflags s')"

primrec channelJournals_pairs ::
    "defs \<Rightarrow> ('s::len) buffer \<Rightarrow> nat \<Rightarrow> 's state \<Rightarrow> (uint8_t \<times> uint8_t) list" where
  "channelJournals_pairs d buf 0 s = []"
| "channelJournals_pairs d buf (Suc n) s =
     channelJournal_pairs d buf s @
     (case channelJournal d buf s of
        Inl e \<Rightarrow> []
      | Inr s' \<Rightarrow> channelJournals_pairs d buf n s')"

definition observedPairs ::
    "defs \<Rightarrow> ('s::len) buffer \<Rightarrow> 's state \<Rightarrow> (uint8_t \<times> uint8_t) list" where
  "observedPairs d buf s =
     (case requireBytes buf 1 s of
        Inl e \<Rightarrow> []
      | Inr s \<Rightarrow>
          (let flags = peek buf (cursor s) in
           (case requireBytes buf 2 (advance 1 s) of
              Inl e \<Rightarrow> []
            | Inr s \<Rightarrow>
                (if flags AND RTP_MIDI_JS_FLAG_A d \<noteq> 0
                 then (case requireBytes buf 3 (advance 2 s) of
                         Inl e \<Rightarrow> []
                       | Inr s \<Rightarrow>
                           channelJournals_pairs d buf (unat (totalChannelsOf d flags)) s)
                 else []))))"

text \<open>The pairs that must not appear: \<open>low > high\<close>, the pairs (15,0) and (15,1) apart.\<close>

definition illegalPair :: "uint8_t \<times> uint8_t \<Rightarrow> bool" where
  "illegalPair p = (case p of (low, high) \<Rightarrow> high < low \<and> p \<noteq> (15, 0) \<and> p \<noteq> (15, 1))"

subsection \<open>The length checks a run makes\<close>

text \<open>
  The length checks that a run makes, in the order in which it makes them. Each is given by
  the references as they are immediately before the check, that is before the addition to
  \<open>minimumLen\<close>, and by the number of bytes that the check adds to the budget. A check
  \<open>(t, n)\<close> fails when \<open>getLength buf < minimumLen t + n\<close>. The list of a run ends with the
  first check that fails, with the return for an illegal pair, or with the end of the body.
\<close>

type_synonym 's lengthCheck = "'s state \<times> 's word"

text \<open>The checks of a step, then those of the steps after it when it has not returned.\<close>

definition checksThen ::
    "(('s::len) state \<Rightarrow> 's lengthCheck list) \<Rightarrow> ('s state \<Rightarrow> 's step) \<Rightarrow>
     ('s state \<Rightarrow> 's lengthCheck list) \<Rightarrow> 's state \<Rightarrow> 's lengthCheck list" where
  "checksThen checks step rest s =
     checks s @ (case step s of Inl e \<Rightarrow> [] | Inr t \<Rightarrow> rest t)"

definition chapterP_checks :: "defs \<Rightarrow> uint32_t \<Rightarrow> ('s::len) state \<Rightarrow> 's lengthCheck list" where
  "chapterP_checks d chanflags s =
     (if chanflags AND RTP_MIDI_CJ_FLAG_P d \<noteq> 0 then [(s, 3)] else [])"

definition chapterW_checks :: "defs \<Rightarrow> uint32_t \<Rightarrow> ('s::len) state \<Rightarrow> 's lengthCheck list" where
  "chapterW_checks d chanflags s =
     (if chanflags AND RTP_MIDI_CJ_FLAG_W d \<noteq> 0 then [(s, 2)] else [])"

text \<open>
  Chapter N: the check for the header and, when the header is there and its pair is legal,
  the check for the logs and the offbit octets, made after the two \<open>i++\<close> of the header.
\<close>

definition chapterN_checks ::
    "defs \<Rightarrow> ('s::len) buffer \<Rightarrow> uint32_t \<Rightarrow> 's state \<Rightarrow> 's lengthCheck list" where
  "chapterN_checks d buf chanflags s =
     (if chanflags AND RTP_MIDI_CJ_FLAG_N d \<noteq> 0
      then (s, 2) #
        (case requireBytes buf 2 s of
           Inl e \<Rightarrow> []
         | Inr t \<Rightarrow>
             (let header = ntohs_value16 (peek buf (cursor t)) (peek buf (cursor t + 1));
                  logListCount = logListCountOf d header;
                  low = lowOf d header;
                  high = highOf d header
              in (case offbitCountOf low high of
                    None \<Rightarrow> []
                  | Some offbitCount \<Rightarrow>
                      [(advance 2 t,
                        of_nat (unat (escapedLogListCount logListCount low high) * 2
                                + unat offbitCount))])))
      else [])"

text \<open>Chapter E: the check for the header and, after its \<open>i++\<close>, the check for the entries.\<close>

definition chapterE_checks ::
    "defs \<Rightarrow> ('s::len) buffer \<Rightarrow> uint32_t \<Rightarrow> 's state \<Rightarrow> 's lengthCheck list" where
  "chapterE_checks d buf chanflags s =
     (if chanflags AND RTP_MIDI_CJ_FLAG_E d \<noteq> 0
      then (s, 1) #
        (case requireBytes buf 1 s of
           Inl e \<Rightarrow> []
         | Inr t \<Rightarrow>
             [(advance 1 t,
               of_nat (unat ((peek buf (cursor t) AND RTP_MIDI_CJ_CHAPTER_E_MASK_LENGTH d) + 1)
                       * 2))])
      else [])"

definition chapterT_checks :: "defs \<Rightarrow> uint32_t \<Rightarrow> ('s::len) state \<Rightarrow> 's lengthCheck list" where
  "chapterT_checks d chanflags s =
     (if chanflags AND RTP_MIDI_CJ_FLAG_T d \<noteq> 0 then [(s, 1)] else [])"

definition chapterA_checks :: "defs \<Rightarrow> uint32_t \<Rightarrow> ('s::len) state \<Rightarrow> 's lengthCheck list" where
  "chapterA_checks d chanflags s =
     (if chanflags AND RTP_MIDI_CJ_FLAG_A d \<noteq> 0 then [(s, 2)] else [])"

text \<open>The chapters C and M make no check.\<close>

definition chapters_checks ::
    "defs \<Rightarrow> ('s::len) buffer \<Rightarrow> uint32_t \<Rightarrow> 's state \<Rightarrow> 's lengthCheck list" where
  "chapters_checks d buf chanflags =
     checksThen (chapterP_checks d chanflags) (chapterP d buf chanflags)
    (checksThen (\<lambda>s. []) (chapterC d buf chanflags)
    (checksThen (\<lambda>s. []) (chapterM d buf chanflags)
    (checksThen (chapterW_checks d chanflags) (chapterW d buf chanflags)
    (checksThen (chapterN_checks d buf chanflags) (chapterN d buf chanflags)
    (checksThen (chapterE_checks d buf chanflags) (chapterE d buf chanflags)
    (checksThen (chapterT_checks d chanflags) (chapterT d buf chanflags)
    (chapterA_checks d chanflags)))))))"

definition channelJournal_checks ::
    "defs \<Rightarrow> ('s::len) buffer \<Rightarrow> 's state \<Rightarrow> 's lengthCheck list" where
  "channelJournal_checks d buf s =
     chapters_checks d buf (chanflagsAt buf (cursor s)) (advance 3 s)"

primrec channelJournals_checks ::
    "defs \<Rightarrow> ('s::len) buffer \<Rightarrow> nat \<Rightarrow> 's state \<Rightarrow> 's lengthCheck list" where
  "channelJournals_checks d buf 0 s = []"
| "channelJournals_checks d buf (Suc n) s =
     checksThen (channelJournal_checks d buf) (channelJournal d buf)
       (channelJournals_checks d buf n) s"

text \<open>
  The checks of a call: for the header byte, for the checkpoint and, with the A bit set, the
  one check before the loop and the checks of the channel journals.
\<close>

definition lengthChecks :: "defs \<Rightarrow> ('s::len) buffer \<Rightarrow> 's state \<Rightarrow> 's lengthCheck list" where
  "lengthChecks d buf s =
     (s, 1) #
     (case requireBytes buf 1 s of
        Inl e \<Rightarrow> []
      | Inr t \<Rightarrow>
          (let flags = peek buf (cursor t);
               t = advance 1 t
           in (t, 2) #
              (case requireBytes buf 2 t of
                 Inl e \<Rightarrow> []
               | Inr t \<Rightarrow>
                   (let t = advance 2 t
                    in (if flags AND RTP_MIDI_JS_FLAG_A d \<noteq> 0
                        then (t, 3) #
                          (case requireBytes buf 3 t of
                             Inl e \<Rightarrow> []
                           | Inr t \<Rightarrow>
                               channelJournals_checks d buf (unat (totalChannelsOf d flags)) t)
                        else [])))))"

text \<open>
  The relation between the result of a step and the list of its checks: a return of
  \<open>PARSER_NOT_ENOUGH_DATA\<close> comes from the last check of the list, which fails after all
  the others have passed, and leaves the references as they were before that check with
  the budget raised by its amount; in every other case all the checks have passed.
\<close>

definition agrees :: "('s::len) buffer \<Rightarrow> 's step \<Rightarrow> 's lengthCheck list \<Rightarrow> bool" where
  "agrees buf r cs =
     (case r of
        Inl (v, s') \<Rightarrow>
          (if v = PARSER_NOT_ENOUGH_DATA
           then cs \<noteq> []
                \<and> (\<forall>(t, n) \<in> set (butlast cs). \<not> getLength buf < minimumLen t + n)
                \<and> (case last cs of (t, n) \<Rightarrow>
                      getLength buf < minimumLen t + n
                      \<and> s' = t\<lparr>minimumLen := minimumLen t + n\<rparr>)
           else (\<forall>(t, n) \<in> set cs. \<not> getLength buf < minimumLen t + n))
      | Inr s' \<Rightarrow> (\<forall>(t, n) \<in> set cs. \<not> getLength buf < minimumLen t + n))"

subsection \<open>Budget and cursor along a run\<close>

text \<open>
  A check for \<open>n\<close> bytes followed by the advance of the cursor by \<open>n\<close>.
\<close>

definition requireAndAdvance :: "('s::len) buffer \<Rightarrow> 's word \<Rightarrow> 's state \<Rightarrow> 's step" where
  "requireAndAdvance buf n s = andThen (requireBytes buf n s) (\<lambda>s. Inr (advance n s))"

text \<open>
  A relation between the references before a step, its result and its checks, for a step
  that goes on and is entered with a budget that is at most the available length: the budget
  is still at most the available length; the cursor has advanced by a number \<open>a\<close> of bytes
  and the budget has grown by a number \<open>b\<close>, without wrapping, where \<open>a\<close> lies between
  \<open>b + k\<close> and \<open>b + K\<close>; and at every check the budget was at least the budget at the
  entry, the addition did not wrap, and the raised budget is at most the budget at the end.
\<close>

definition covers ::
    "('s::len) buffer \<Rightarrow> nat \<Rightarrow> nat \<Rightarrow> 's state \<Rightarrow> 's step \<Rightarrow> 's lengthCheck list \<Rightarrow> bool" where
  "covers buf k K s r cs =
     (case r of
        Inl e \<Rightarrow> True
      | Inr s' \<Rightarrow>
          (minimumLen s \<le> getLength buf \<longrightarrow>
             minimumLen s' \<le> getLength buf
             \<and> (\<exists>a b. cursor s' = cursor s + of_nat a
                      \<and> unat (minimumLen s') = unat (minimumLen s) + b
                      \<and> b + k \<le> a \<and> a \<le> b + K)
             \<and> (\<forall>(t, n) \<in> set cs.
                   minimumLen s \<le> minimumLen t \<and> minimumLen t \<le> minimumLen t + n
                   \<and> minimumLen t + n \<le> minimumLen s')))"

section \<open>Properties\<close>

subsection \<open>Auxiliary facts\<close>

lemmas step_defs = andThen_def requireBytes_def advance_def

lemma walkEntries_advance: "walkEntries n s = advance (of_nat (2 * n)) s"
  by (induction n arbitrary: s) (simp_all add: advance_def algebra_simps)

lemma finish_simps [simp]:
  "finish (Inl (v, s)) = (Returned v, s)" "finish (Inr s) = (NoReturn, s)"
  by (simp_all add: finish_def)

lemma andThen_simps [simp]:
  "andThen (Inl e) f = Inl e" "andThen (Inr s) f = f s"
  by (simp_all add: andThen_def)

lemma andThen_assoc: "andThen (andThen r f) g = andThen r (\<lambda>s. andThen (f s) g)"
  by (cases r) simp_all

lemma andThen_if: "andThen (if c then a else b) f = (if c then andThen a f else andThen b f)"
  by simp

lemma returned_andThen:
  "fst (finish (andThen r f)) = Returned v \<longleftrightarrow>
     fst (finish r) = Returned v \<or> (\<exists>s1. r = Inr s1 \<and> fst (finish (f s1)) = Returned v)"
proof (cases r)
  case (Inl e)
  then show ?thesis by (cases e) simp
next
  case (Inr s1)
  then show ?thesis by simp
qed

lemma requireBytes_eq:
  "requireBytes buf n s =
     (if getLength buf < minimumLen s + n
      then Inl (PARSER_NOT_ENOUGH_DATA, s\<lparr>minimumLen := minimumLen s + n\<rparr>)
      else Inr (s\<lparr>minimumLen := minimumLen s + n\<rparr>))"
  by (simp add: requireBytes_def Let_def)

lemma requireAndAdvance_eq:
  "requireAndAdvance buf n s =
     (if getLength buf < minimumLen s + n
      then Inl (PARSER_NOT_ENOUGH_DATA, s\<lparr>minimumLen := minimumLen s + n\<rparr>)
      else Inr (s\<lparr>cursor := cursor s + n, minimumLen := minimumLen s + n\<rparr>))"
  by (simp add: requireAndAdvance_def requireBytes_eq advance_def)

text \<open>
  The chapters of fixed size and the chapters without a body, written out.
\<close>

lemma chapterP_fixed:
  "chapterP d buf chanflags t =
     (if chanflags AND RTP_MIDI_CJ_FLAG_P d \<noteq> 0
      then (if getLength buf < minimumLen t + 3
            then Inl (PARSER_NOT_ENOUGH_DATA, t\<lparr>minimumLen := minimumLen t + 3\<rparr>)
            else Inr (t\<lparr>cursor := cursor t + 3, minimumLen := minimumLen t + 3\<rparr>))
      else Inr t)"
  by (simp add: chapterP_def requireBytes_eq advance_def)

lemma chapterW_fixed:
  "chapterW d buf chanflags t =
     (if chanflags AND RTP_MIDI_CJ_FLAG_W d \<noteq> 0
      then (if getLength buf < minimumLen t + 2
            then Inl (PARSER_NOT_ENOUGH_DATA, t\<lparr>minimumLen := minimumLen t + 2\<rparr>)
            else Inr (t\<lparr>cursor := cursor t + 2, minimumLen := minimumLen t + 2\<rparr>))
      else Inr t)"
  by (simp add: chapterW_def requireBytes_eq advance_def)

lemma chapterT_fixed:
  "chapterT d buf chanflags t =
     (if chanflags AND RTP_MIDI_CJ_FLAG_T d \<noteq> 0
      then (if getLength buf < minimumLen t + 1
            then Inl (PARSER_NOT_ENOUGH_DATA, t\<lparr>minimumLen := minimumLen t + 1\<rparr>)
            else Inr (t\<lparr>cursor := cursor t + 1, minimumLen := minimumLen t + 1\<rparr>))
      else Inr t)"
  by (simp add: chapterT_def requireBytes_eq advance_def)

lemma chapterC_skip: "chapterC d buf chanflags t = Inr t"
  by (simp add: chapterC_def)

lemma chapterM_skip: "chapterM d buf chanflags t = Inr t"
  by (simp add: chapterM_def)

text \<open>
  What Chapter A does, entered with its flag set: one check, for 2 bytes.
\<close>

lemma chapterA_result:
  "chanflags AND RTP_MIDI_CJ_FLAG_A d \<noteq> 0 \<Longrightarrow>
   chapterA d buf chanflags s =
     (if getLength buf < minimumLen s + 2
      then Inl (PARSER_NOT_ENOUGH_DATA, s\<lparr>minimumLen := minimumLen s + 2\<rparr>)
      else Inr (s\<lparr>cursor := cursor s + 1
                    + of_nat (unat ((peek buf (cursor s) AND RTP_MIDI_CJ_CHAPTER_A_MASK_LENGTH d) + 1)
                              * 2),
                  minimumLen := minimumLen s + 2\<rparr>))"
  by (simp add: chapterA_def requireBytes_eq advance_def walkEntries_advance Let_def add.assoc
      mult.commute)

text \<open>
  The chapters of a channel journal as one chain, and the body with its checks written out.
\<close>

lemma chapters_chain:
  "chapters d buf chanflags s =
     andThen (chapterP d buf chanflags s) (\<lambda>s.
     andThen (chapterC d buf chanflags s) (\<lambda>s.
     andThen (chapterM d buf chanflags s) (\<lambda>s.
     andThen (chapterW d buf chanflags s) (\<lambda>s.
     andThen (chapterN d buf chanflags s) (\<lambda>s.
     andThen (chapterE d buf chanflags s) (\<lambda>s.
     andThen (chapterT d buf chanflags s) (\<lambda>s.
     chapterA d buf chanflags s)))))))"
  by (simp only: chapters_def chaptersBeforeN_def andThen_assoc)

lemma journalBody_unfold:
  "journalBody d buf s =
     (if getLength buf < minimumLen s + 1
      then Inl (PARSER_NOT_ENOUGH_DATA, s\<lparr>minimumLen := minimumLen s + 1\<rparr>)
      else if getLength buf < minimumLen s + 3
      then Inl (PARSER_NOT_ENOUGH_DATA, s\<lparr>cursor := cursor s + 1, minimumLen := minimumLen s + 3\<rparr>)
      else if peek buf (cursor s) AND RTP_MIDI_JS_FLAG_A d = 0
      then Inr (s\<lparr>cursor := cursor s + 3, minimumLen := minimumLen s + 3\<rparr>)
      else if getLength buf < minimumLen s + 6
      then Inl (PARSER_NOT_ENOUGH_DATA, s\<lparr>cursor := cursor s + 3, minimumLen := minimumLen s + 6\<rparr>)
      else channelJournals d buf (unat (totalChannelsOf d (peek buf (cursor s))))
             (s\<lparr>cursor := cursor s + 3, minimumLen := minimumLen s + 6\<rparr>))"
  by (simp add: journalBody_def requireBytes_eq advance_def Let_def add.assoc)

text \<open>
  Facts for concrete runs, and bounds of the \<open>uint8_t\<close> counts.
\<close>

lemma channelJournals_numeral:
  "channelJournals d buf (numeral k) s =
     andThen (channelJournal d buf s) (channelJournals d buf (pred_numeral k))"
  by (simp add: numeral_eq_Suc)

lemma channelJournals_checks_numeral:
  "channelJournals_checks d buf (numeral k) s =
     checksThen (channelJournal_checks d buf) (channelJournal d buf)
       (channelJournals_checks d buf (pred_numeral k)) s"
  by (simp add: numeral_eq_Suc)

lemmas run_defs = decodeJournalSection_def finish_def journalBody_def totalChannelsOf_def
  channelJournals_numeral channelJournal_def chanflagsAt_def ntohl_value32_def ntohs_value16_def
  chapters_def chaptersBeforeN_def chapterP_def chapterC_def chapterM_def chapterW_def
  chapterN_def chapterE_def chapterT_def chapterA_def logListCountOf_def lowOf_def highOf_def
  offbitCountOf_def escapedLogListCount_def step_defs walkEntries_advance wire_defs_def
  bufferOf_def Let_def

lemmas checks_defs = lengthChecks_def channelJournals_checks_numeral channelJournals_checks.simps
  channelJournal_checks_def chapters_checks_def checksThen_def chapterP_checks_def
  chapterW_checks_def chapterN_checks_def chapterE_checks_def chapterT_checks_def
  chapterA_checks_def

lemma unat_byte_le: "unat (x::uint8_t) \<le> 255"
proof -
  have "unat x < 2 ^ LENGTH(8)"
    by (rule unsigned_less)
  then show ?thesis by simp
qed

lemma masked_count:
  fixes x m :: uint8_t
  assumes "m \<le> 0x7F"
  shows "1 \<le> unat ((x AND m) + 1)" "unat ((x AND m) + 1) \<le> unat m + 1"
proof -
  have le: "unat (x AND m) \<le> unat m"
    using word_and_le1 [of x m] by (simp add: word_le_nat_alt)
  have m: "unat m \<le> 127"
    using assms by (simp add: word_le_nat_alt)
  have "unat (x AND m) + unat (1::uint8_t) < 2 ^ LENGTH(8)"
    using le m by simp
  then have "unat ((x AND m) + 1) = unat (x AND m) + unat (1::uint8_t)"
    by (simp only: unat_add_lem)
  then have u: "unat ((x AND m) + 1) = unat (x AND m) + 1"
    by simp
  show "1 \<le> unat ((x AND m) + 1)" "unat ((x AND m) + 1) \<le> unat m + 1"
    using u le by simp_all
qed

lemma unat_small_numerals:
  assumes "16 \<le> LENGTH('s::len)"
  shows "unat (1::'s word) = 1" "unat (3::'s word) = 3" "unat (6::'s word) = 6"
    "unat (7::'s word) = 7" "unat (8::'s word) = 8"
proof -
  have "(2::nat) ^ 16 \<le> 2 ^ LENGTH('s)"
    using assms by (rule power_increasing) simp
  then have big: "(65536::nat) \<le> 2 ^ LENGTH('s)"
    by simp
  have u: "unat (of_nat n :: 's word) = n" if "n < 65536" for n
    using that big by (simp add: unat_of_nat)
  show "unat (1::'s word) = 1" "unat (3::'s word) = 3" "unat (6::'s word) = 6"
    "unat (7::'s word) = 7" "unat (8::'s word) = 8"
    using u [of 1] u [of 3] u [of 6] u [of 7] u [of 8] by simp_all
qed

subsection \<open>The chapters of fixed size\<close>

text \<open>
  C9. One pass of the loop over the channel journals is \<open>channelJournal\<close>. In every pass,
  whatever the other flags are: when the P flag is set the decoder adds 3 to the budget,
  compares it with the available length and, the check passed, advances the cursor by
  exactly 3; it does the same with 2 for the W flag and with 1 for the T flag, each at its
  place in the order P, W, N, E, T, A; the C and the M flag add nothing. \<open>fixed flag n\<close>
  below is such a chapter. In a pass without the chapters N, E and A the cursor ends
  \<open>3 + p + w + t\<close> bytes further and the budget \<open>p + w + t\<close> higher, where \<open>p\<close>, \<open>w\<close>, \<open>t\<close>
  are 3, 2, 1 for the flags that are set; neither depends on the C or the M flag.
\<close>

theorem channel_iteration_fixed_size_chapters:
  "(let chanflags = chanflagsAt buf (cursor s);
        fixed = (\<lambda>flag n t.
          if chanflags AND flag \<noteq> 0
          then (if getLength buf < minimumLen t + n
                then Inl (PARSER_NOT_ENOUGH_DATA, t\<lparr>minimumLen := minimumLen t + n\<rparr>)
                else Inr (t\<lparr>cursor := cursor t + n, minimumLen := minimumLen t + n\<rparr>))
          else Inr t);
        p = (if chanflags AND RTP_MIDI_CJ_FLAG_P d \<noteq> 0 then 3 else 0);
        w = (if chanflags AND RTP_MIDI_CJ_FLAG_W d \<noteq> 0 then 2 else 0);
        t = (if chanflags AND RTP_MIDI_CJ_FLAG_T d \<noteq> 0 then 1 else 0)
    in channelJournal d buf s =
         andThen (fixed (RTP_MIDI_CJ_FLAG_P d) 3 (s\<lparr>cursor := cursor s + 3\<rparr>)) (\<lambda>s.
         andThen (fixed (RTP_MIDI_CJ_FLAG_W d) 2 s) (\<lambda>s.
         andThen (chapterN d buf chanflags s) (\<lambda>s.
         andThen (chapterE d buf chanflags s) (\<lambda>s.
         andThen (fixed (RTP_MIDI_CJ_FLAG_T d) 1 s) (\<lambda>s.
         chapterA d buf chanflags s)))))
       \<and> (chanflags AND RTP_MIDI_CJ_FLAG_N d = 0 \<and> chanflags AND RTP_MIDI_CJ_FLAG_E d = 0
            \<and> chanflags AND RTP_MIDI_CJ_FLAG_A d = 0 \<longrightarrow>
          channelJournal d buf s =
            (if chanflags AND RTP_MIDI_CJ_FLAG_P d \<noteq> 0 \<and> getLength buf < minimumLen s + 3
             then Inl (PARSER_NOT_ENOUGH_DATA,
                    s\<lparr>cursor := cursor s + 3, minimumLen := minimumLen s + 3\<rparr>)
             else if chanflags AND RTP_MIDI_CJ_FLAG_W d \<noteq> 0
                     \<and> getLength buf < minimumLen s + p + 2
             then Inl (PARSER_NOT_ENOUGH_DATA,
                    s\<lparr>cursor := cursor s + 3 + p, minimumLen := minimumLen s + p + 2\<rparr>)
             else if chanflags AND RTP_MIDI_CJ_FLAG_T d \<noteq> 0
                     \<and> getLength buf < minimumLen s + p + w + 1
             then Inl (PARSER_NOT_ENOUGH_DATA,
                    s\<lparr>cursor := cursor s + 3 + p + w, minimumLen := minimumLen s + p + w + 1\<rparr>)
             else Inr (s\<lparr>cursor := cursor s + 3 + p + w + t,
                         minimumLen := minimumLen s + p + w + t\<rparr>))))"
proof -
  let ?cf = "chanflagsAt buf (cursor s)"
  have chain: "channelJournal d buf s =
      andThen (chapterP d buf ?cf (s\<lparr>cursor := cursor s + 3\<rparr>)) (\<lambda>s.
      andThen (chapterW d buf ?cf s) (\<lambda>s.
      andThen (chapterN d buf ?cf s) (\<lambda>s.
      andThen (chapterE d buf ?cf s) (\<lambda>s.
      andThen (chapterT d buf ?cf s) (\<lambda>s.
      chapterA d buf ?cf s)))))"
    by (simp only: channelJournal_def chapters_def chaptersBeforeN_def Let_def andThen_assoc
        chapterC_skip chapterM_skip andThen_simps advance_def)
  have fixed_only: "channelJournal d buf s =
      (if ?cf AND RTP_MIDI_CJ_FLAG_P d \<noteq> 0 \<and> getLength buf < minimumLen s + 3
       then Inl (PARSER_NOT_ENOUGH_DATA,
              s\<lparr>cursor := cursor s + 3, minimumLen := minimumLen s + 3\<rparr>)
       else if ?cf AND RTP_MIDI_CJ_FLAG_W d \<noteq> 0
               \<and> getLength buf < minimumLen s
                    + (if ?cf AND RTP_MIDI_CJ_FLAG_P d \<noteq> 0 then 3 else 0) + 2
       then Inl (PARSER_NOT_ENOUGH_DATA,
              s\<lparr>cursor := cursor s + 3 + (if ?cf AND RTP_MIDI_CJ_FLAG_P d \<noteq> 0 then 3 else 0),
                 minimumLen := minimumLen s
                    + (if ?cf AND RTP_MIDI_CJ_FLAG_P d \<noteq> 0 then 3 else 0) + 2\<rparr>)
       else if ?cf AND RTP_MIDI_CJ_FLAG_T d \<noteq> 0
               \<and> getLength buf < minimumLen s
                    + (if ?cf AND RTP_MIDI_CJ_FLAG_P d \<noteq> 0 then 3 else 0)
                    + (if ?cf AND RTP_MIDI_CJ_FLAG_W d \<noteq> 0 then 2 else 0) + 1
       then Inl (PARSER_NOT_ENOUGH_DATA,
              s\<lparr>cursor := cursor s + 3 + (if ?cf AND RTP_MIDI_CJ_FLAG_P d \<noteq> 0 then 3 else 0)
                    + (if ?cf AND RTP_MIDI_CJ_FLAG_W d \<noteq> 0 then 2 else 0),
                 minimumLen := minimumLen s
                    + (if ?cf AND RTP_MIDI_CJ_FLAG_P d \<noteq> 0 then 3 else 0)
                    + (if ?cf AND RTP_MIDI_CJ_FLAG_W d \<noteq> 0 then 2 else 0) + 1\<rparr>)
       else Inr (s\<lparr>cursor := cursor s + 3 + (if ?cf AND RTP_MIDI_CJ_FLAG_P d \<noteq> 0 then 3 else 0)
                    + (if ?cf AND RTP_MIDI_CJ_FLAG_W d \<noteq> 0 then 2 else 0)
                    + (if ?cf AND RTP_MIDI_CJ_FLAG_T d \<noteq> 0 then 1 else 0),
                   minimumLen := minimumLen s
                    + (if ?cf AND RTP_MIDI_CJ_FLAG_P d \<noteq> 0 then 3 else 0)
                    + (if ?cf AND RTP_MIDI_CJ_FLAG_W d \<noteq> 0 then 2 else 0)
                    + (if ?cf AND RTP_MIDI_CJ_FLAG_T d \<noteq> 0 then 1 else 0)\<rparr>))"
    if "?cf AND RTP_MIDI_CJ_FLAG_N d = 0" "?cf AND RTP_MIDI_CJ_FLAG_E d = 0"
      "?cf AND RTP_MIDI_CJ_FLAG_A d = 0"
    using that
    by (simp add: channelJournal_def chapters_def chaptersBeforeN_def chapterP_def chapterC_def
        chapterM_def chapterW_def chapterT_def chapterN_def chapterE_def chapterA_def
        requireBytes_eq advance_def Let_def add.assoc)
  show ?thesis
    unfolding Let_def
  proof (intro conjI impI)
    show "channelJournal d buf s =
      andThen (if ?cf AND RTP_MIDI_CJ_FLAG_P d \<noteq> 0
               then if getLength buf < minimumLen (s\<lparr>cursor := cursor s + 3\<rparr>) + 3
                    then Inl (PARSER_NOT_ENOUGH_DATA,
                           s\<lparr>cursor := cursor s + 3,
                              minimumLen := minimumLen (s\<lparr>cursor := cursor s + 3\<rparr>) + 3\<rparr>)
                    else Inr (s\<lparr>cursor := cursor s + 3,
                                cursor := cursor (s\<lparr>cursor := cursor s + 3\<rparr>) + 3,
                                minimumLen := minimumLen (s\<lparr>cursor := cursor s + 3\<rparr>) + 3\<rparr>)
               else Inr (s\<lparr>cursor := cursor s + 3\<rparr>)) (\<lambda>s.
      andThen (if ?cf AND RTP_MIDI_CJ_FLAG_W d \<noteq> 0
               then if getLength buf < minimumLen s + 2
                    then Inl (PARSER_NOT_ENOUGH_DATA, s\<lparr>minimumLen := minimumLen s + 2\<rparr>)
                    else Inr (s\<lparr>cursor := cursor s + 2, minimumLen := minimumLen s + 2\<rparr>)
               else Inr s) (\<lambda>s.
      andThen (chapterN d buf ?cf s) (\<lambda>s.
      andThen (chapterE d buf ?cf s) (\<lambda>s.
      andThen (if ?cf AND RTP_MIDI_CJ_FLAG_T d \<noteq> 0
               then if getLength buf < minimumLen s + 1
                    then Inl (PARSER_NOT_ENOUGH_DATA, s\<lparr>minimumLen := minimumLen s + 1\<rparr>)
                    else Inr (s\<lparr>cursor := cursor s + 1, minimumLen := minimumLen s + 1\<rparr>)
               else Inr s) (\<lambda>s.
      chapterA d buf ?cf s)))))"
      by (simp only: chain chapterP_fixed chapterW_fixed chapterT_fixed)
  next
    assume "?cf AND RTP_MIDI_CJ_FLAG_N d = 0 \<and> ?cf AND RTP_MIDI_CJ_FLAG_E d = 0
        \<and> ?cf AND RTP_MIDI_CJ_FLAG_A d = 0"
    then show "channelJournal d buf s =
      (if ?cf AND RTP_MIDI_CJ_FLAG_P d \<noteq> 0 \<and> getLength buf < minimumLen s + 3
       then Inl (PARSER_NOT_ENOUGH_DATA,
              s\<lparr>cursor := cursor s + 3, minimumLen := minimumLen s + 3\<rparr>)
       else if ?cf AND RTP_MIDI_CJ_FLAG_W d \<noteq> 0
               \<and> getLength buf < minimumLen s
                    + (if ?cf AND RTP_MIDI_CJ_FLAG_P d \<noteq> 0 then 3 else 0) + 2
       then Inl (PARSER_NOT_ENOUGH_DATA,
              s\<lparr>cursor := cursor s + 3 + (if ?cf AND RTP_MIDI_CJ_FLAG_P d \<noteq> 0 then 3 else 0),
                 minimumLen := minimumLen s
                    + (if ?cf AND RTP_MIDI_CJ_FLAG_P d \<noteq> 0 then 3 else 0) + 2\<rparr>)
       else if ?cf AND RTP_MIDI_CJ_FLAG_T d \<noteq> 0
               \<and> getLength buf < minimumLen s
                    + (if ?cf AND RTP_MIDI_CJ_FLAG_P d \<noteq> 0 then 3 else 0)
                    + (if ?cf AND RTP_MIDI_CJ_FLAG_W d \<noteq> 0 then 2 else 0) + 1
       then Inl (PARSER_NOT_ENOUGH_DATA,
              s\<lparr>cursor := cursor s + 3 + (if ?cf AND RTP_MIDI_CJ_FLAG_P d \<noteq> 0 then 3 else 0)
                    + (if ?cf AND RTP_MIDI_CJ_FLAG_W d \<noteq> 0 then 2 else 0),
                 minimumLen := minimumLen s
                    + (if ?cf AND RTP_MIDI_CJ_FLAG_P d \<noteq> 0 then 3 else 0)
                    + (if ?cf AND RTP_MIDI_CJ_FLAG_W d \<noteq> 0 then 2 else 0) + 1\<rparr>)
       else Inr (s\<lparr>cursor := cursor s + 3 + (if ?cf AND RTP_MIDI_CJ_FLAG_P d \<noteq> 0 then 3 else 0)
                    + (if ?cf AND RTP_MIDI_CJ_FLAG_W d \<noteq> 0 then 2 else 0)
                    + (if ?cf AND RTP_MIDI_CJ_FLAG_T d \<noteq> 0 then 1 else 0),
                   minimumLen := minimumLen s
                    + (if ?cf AND RTP_MIDI_CJ_FLAG_P d \<noteq> 0 then 3 else 0)
                    + (if ?cf AND RTP_MIDI_CJ_FLAG_W d \<noteq> 0 then 2 else 0)
                    + (if ?cf AND RTP_MIDI_CJ_FLAG_T d \<noteq> 0 then 1 else 0)\<rparr>))"
      using fixed_only by blast
  qed
qed

text \<open>
  A pass with the flags P, C, M, W and T set, on 12 bytes and on 11 bytes (the check of
  Chapter T fails), and a pass with only the flags C and M: three bytes, budget unchanged.
  The concrete runs of this file are made with \<open>size_t\<close> at 32 bits.
\<close>

theorem channel_iteration_fixed_size_chapters_witness:
  "chanflagsAt (bufferOf [0x20, 0, 1, 0x03, 0xC8, 0, 7, 7, 7, 8, 8, 9] :: 32 buffer) 3 = 0x03C80000
   \<and> 0x03C80000 AND RTP_MIDI_CJ_FLAG_P wire_defs \<noteq> 0
   \<and> 0x03C80000 AND RTP_MIDI_CJ_FLAG_C wire_defs \<noteq> 0
   \<and> 0x03C80000 AND RTP_MIDI_CJ_FLAG_M wire_defs \<noteq> 0
   \<and> 0x03C80000 AND RTP_MIDI_CJ_FLAG_W wire_defs \<noteq> 0
   \<and> 0x03C80000 AND RTP_MIDI_CJ_FLAG_T wire_defs \<noteq> 0
   \<and> channelJournal wire_defs (bufferOf [0x20, 0, 1, 0x03, 0xC8, 0, 7, 7, 7, 8, 8, 9] :: 32 buffer)
         \<lparr>cursor = 3, minimumLen = 6\<rparr> = Inr \<lparr>cursor = 12, minimumLen = 12\<rparr>
   \<and> channelJournal wire_defs (bufferOf [0x20, 0, 1, 0x03, 0xC8, 0, 7, 7, 7, 8, 8] :: 32 buffer)
         \<lparr>cursor = 3, minimumLen = 6\<rparr>
       = Inl (PARSER_NOT_ENOUGH_DATA, \<lparr>cursor = 11, minimumLen = 12\<rparr>)
   \<and> channelJournal wire_defs (bufferOf [0x20, 0, 1, 0x01, 0x80, 0] :: 32 buffer)
         \<lparr>cursor = 3, minimumLen = 6\<rparr> = Inr \<lparr>cursor = 6, minimumLen = 6\<rparr>"
  using
    channel_iteration_fixed_size_chapters [of
      "bufferOf [0x20, 0, 1, 0x03, 0xC8, 0, 7, 7, 7, 8, 8, 9] :: 32 buffer"
      "\<lparr>cursor = 3, minimumLen = 6\<rparr>" wire_defs, unfolded Let_def, THEN conjunct2]
    channel_iteration_fixed_size_chapters [of
      "bufferOf [0x20, 0, 1, 0x03, 0xC8, 0, 7, 7, 7, 8, 8] :: 32 buffer"
      "\<lparr>cursor = 3, minimumLen = 6\<rparr>" wire_defs, unfolded Let_def, THEN conjunct2]
    channel_iteration_fixed_size_chapters [of
      "bufferOf [0x20, 0, 1, 0x01, 0x80, 0] :: 32 buffer"
      "\<lparr>cursor = 3, minimumLen = 6\<rparr>" wire_defs, unfolded Let_def, THEN conjunct2]
  by (simp add: wire_defs_def bufferOf_def chanflagsAt_def ntohl_value32_def Let_def)

subsection \<open>Chapter N\<close>

lemma unat_offbits:
  fixes low high :: uint8_t
  assumes "low \<le> high" "high \<le> 15"
  shows "unat (high - low + 1) = unat high - unat low + 1"
proof -
  have sub: "unat (high - low) = unat high - unat low"
    using assms(1) by (rule unat_sub)
  have "unat high \<le> 15"
    using assms(2) by (simp add: word_le_nat_alt)
  then have "unat (high - low) + unat (1::uint8_t) < 2 ^ LENGTH(8)"
    using sub by simp
  then have "unat (high - low + 1) = unat (high - low) + unat (1::uint8_t)"
    by (simp only: unat_add_lem)
  then show ?thesis
    using sub by simp
qed

lemma sentinel_not_le [simp]: "\<not> (15::uint8_t) \<le> 0" "\<not> (15::uint8_t) \<le> 1"
  by (simp_all add: word_le_nat_alt)

text \<open>
  C2. Chapter N, entered with its flag set and the two bytes of its header available. With
  \<open>low\<close> and \<open>high\<close> the two fields of the header: for \<open>low \<le> high\<close> the number of offbit
  octets is \<open>high - low + 1\<close> (for nibbles this is the number \<open>high - low + 1\<close> itself, with
  no wrap-around of the \<open>uint8_t\<close>); for the pairs (15,0) and (15,1) it is 0; every other
  pair with \<open>low > high\<close> makes the decoder return \<open>PARSER_UNEXPECTED_DATA\<close>. A log list
  count of 127 with the pair (15,0) is taken as 128, and the decoder then requires
  \<open>128 * 2 + 0\<close> further bytes. \<open>walk n\<close> below is the check for \<open>n\<close> further bytes
  followed by the advance of the cursor by \<open>n\<close>.
\<close>

theorem chapterN_offbit_octets:
  "chanflags AND RTP_MIDI_CJ_FLAG_N d \<noteq> 0 \<Longrightarrow> \<not> getLength buf < minimumLen s + 2 \<Longrightarrow>
   (let header = ntohs_value16 (peek buf (cursor s)) (peek buf (cursor s + 1));
        logListCount = logListCountOf d header;
        low = lowOf d header;
        high = highOf d header;
        walk = (\<lambda>n. if getLength buf < minimumLen s + 2 + n
                    then Inl (PARSER_NOT_ENOUGH_DATA,
                           s\<lparr>cursor := cursor s + 2, minimumLen := minimumLen s + 2 + n\<rparr>)
                    else Inr (s\<lparr>cursor := cursor s + 2 + n, minimumLen := minimumLen s + 2 + n\<rparr>))
    in (low \<le> high \<longrightarrow>
          offbitCountOf low high = Some (high - low + 1)
          \<and> (high \<le> 15 \<longrightarrow> unat (high - low + 1) = unat high - unat low + 1)
          \<and> chapterN d buf chanflags s
              = walk (of_nat (unat logListCount * 2 + unat (high - low + 1))))
     \<and> (low = 15 \<and> (high = 0 \<or> high = 1) \<longrightarrow> offbitCountOf low high = Some 0)
     \<and> (\<not> low \<le> high \<and> \<not> (low = 15 \<and> (high = 0 \<or> high = 1)) \<longrightarrow>
          offbitCountOf low high = None
          \<and> chapterN d buf chanflags s
              = Inl (PARSER_UNEXPECTED_DATA,
                  s\<lparr>cursor := cursor s + 2, minimumLen := minimumLen s + 2\<rparr>))
     \<and> (logListCount = 127 \<and> low = 15 \<and> high = 0 \<longrightarrow>
          chapterN d buf chanflags s = walk (of_nat (128 * 2 + 0)))
     \<and> (logListCount \<noteq> 127 \<and> low = 15 \<and> high = 0 \<longrightarrow>
          chapterN d buf chanflags s = walk (of_nat (unat logListCount * 2 + 0)))
     \<and> (low = 15 \<and> high = 1 \<longrightarrow>
          chapterN d buf chanflags s = walk (of_nat (unat logListCount * 2 + 0))))"
  by (auto simp add: chapterN_def offbitCountOf_def escapedLogListCount_def requireBytes_eq
      advance_def Let_def add.assoc unat_offbits)

text \<open>
  Five headers after a channel journal with the N flag: (low, high) = (2,2) with one log,
  three bytes; (5,3), refused; (15,0) with count 127, 256 bytes required; (15,0) with count
  2, four bytes; (15,1) with count 127, 254 bytes required.
\<close>

theorem chapterN_offbit_octets_witness:
  "(0x00200000 AND RTP_MIDI_CJ_FLAG_N wire_defs \<noteq> 0)
   \<and> chapterN wire_defs (bufferOf [0x20, 0, 1, 0, 0x20, 0, 0x01, 0x22, 9, 9, 9] :: 32 buffer)
         0x00200000 \<lparr>cursor = 6, minimumLen = 6\<rparr> = Inr \<lparr>cursor = 11, minimumLen = 11\<rparr>
   \<and> chapterN wire_defs (bufferOf [0x20, 0, 1, 0, 0x20, 0, 0x00, 0x53, 9, 9, 9] :: 32 buffer)
         0x00200000 \<lparr>cursor = 6, minimumLen = 6\<rparr>
       = Inl (PARSER_UNEXPECTED_DATA, \<lparr>cursor = 8, minimumLen = 8\<rparr>)
   \<and> chapterN wire_defs (bufferOf [0x20, 0, 1, 0, 0x20, 0, 0x7F, 0xF0, 9, 9, 9] :: 32 buffer)
         0x00200000 \<lparr>cursor = 6, minimumLen = 6\<rparr>
       = Inl (PARSER_NOT_ENOUGH_DATA, \<lparr>cursor = 8, minimumLen = 264\<rparr>)
   \<and> chapterN wire_defs (bufferOf [0x20, 0, 1, 0, 0x20, 0, 0x02, 0xF0, 9, 9, 9, 9] :: 32 buffer)
         0x00200000 \<lparr>cursor = 6, minimumLen = 6\<rparr> = Inr \<lparr>cursor = 12, minimumLen = 12\<rparr>
   \<and> chapterN wire_defs (bufferOf [0x20, 0, 1, 0, 0x20, 0, 0x7F, 0xF1, 9, 9, 9] :: 32 buffer)
         0x00200000 \<lparr>cursor = 6, minimumLen = 6\<rparr>
       = Inl (PARSER_NOT_ENOUGH_DATA, \<lparr>cursor = 8, minimumLen = 262\<rparr>)"
  using
    chapterN_offbit_octets [of "0x00200000" wire_defs
      "bufferOf [0x20, 0, 1, 0, 0x20, 0, 0x01, 0x22, 9, 9, 9] :: 32 buffer"
      "\<lparr>cursor = 6, minimumLen = 6\<rparr>"]
    chapterN_offbit_octets [of "0x00200000" wire_defs
      "bufferOf [0x20, 0, 1, 0, 0x20, 0, 0x00, 0x53, 9, 9, 9] :: 32 buffer"
      "\<lparr>cursor = 6, minimumLen = 6\<rparr>"]
    chapterN_offbit_octets [of "0x00200000" wire_defs
      "bufferOf [0x20, 0, 1, 0, 0x20, 0, 0x7F, 0xF0, 9, 9, 9] :: 32 buffer"
      "\<lparr>cursor = 6, minimumLen = 6\<rparr>"]
    chapterN_offbit_octets [of "0x00200000" wire_defs
      "bufferOf [0x20, 0, 1, 0, 0x20, 0, 0x02, 0xF0, 9, 9, 9, 9] :: 32 buffer"
      "\<lparr>cursor = 6, minimumLen = 6\<rparr>"]
    chapterN_offbit_octets [of "0x00200000" wire_defs
      "bufferOf [0x20, 0, 1, 0, 0x20, 0, 0x7F, 0xF1, 9, 9, 9] :: 32 buffer"
      "\<lparr>cursor = 6, minimumLen = 6\<rparr>"]
  by (simp add: wire_defs_def bufferOf_def ntohs_value16_def logListCountOf_def lowOf_def
      highOf_def Let_def)

subsection \<open>Chapters E and A\<close>

text \<open>
  C6. Chapter E, entered with its flag set: one byte is added to the budget and checked
  before the header is read; \<open>log_count\<close> is the masked header plus 1 (a header byte 0 gives
  1, a length field of 4 gives 5, that is 10 bytes of entries); \<open>log_count * 2\<close> bytes are
  added to the budget and checked before the entries are walked; the chapter then has
  consumed the header and the entries, \<open>1 + log_count * 2\<close> bytes.
\<close>

theorem chapterE_log_count:
  "chanflags AND RTP_MIDI_CJ_FLAG_E d \<noteq> 0 \<Longrightarrow>
   (let header = peek buf (cursor s);
        log_count = (header AND RTP_MIDI_CJ_CHAPTER_E_MASK_LENGTH d) + 1
    in chapterE d buf chanflags s =
         (if getLength buf < minimumLen s + 1
          then Inl (PARSER_NOT_ENOUGH_DATA, s\<lparr>minimumLen := minimumLen s + 1\<rparr>)
          else if getLength buf < minimumLen s + 1 + of_nat (unat log_count * 2)
          then Inl (PARSER_NOT_ENOUGH_DATA,
                 s\<lparr>cursor := cursor s + 1,
                    minimumLen := minimumLen s + 1 + of_nat (unat log_count * 2)\<rparr>)
          else Inr (s\<lparr>cursor := cursor s + 1 + of_nat (unat log_count * 2),
                      minimumLen := minimumLen s + 1 + of_nat (unat log_count * 2)\<rparr>))
       \<and> (header = 0 \<longrightarrow> log_count = 1)
       \<and> (header AND RTP_MIDI_CJ_CHAPTER_E_MASK_LENGTH d = 4 \<longrightarrow>
            log_count = 5 \<and> unat log_count * 2 = 10))"
  by (simp add: chapterE_def requireBytes_eq advance_def walkEntries_advance Let_def add.assoc
      mult.commute)

text \<open>
  A header with the length field 4 (and a bit above the mask), with all 11 bytes and with
  one byte missing; a header 0; no header byte at all.
\<close>

theorem chapterE_log_count_witness:
  "(0x00100000 AND RTP_MIDI_CJ_FLAG_E wire_defs \<noteq> 0)
   \<and> peek (bufferOf [0x20, 0, 1, 0, 0x10, 0, 0x84, 1, 2, 3, 4, 5, 6, 7, 8, 9, 10] :: 32 buffer) 6
        AND RTP_MIDI_CJ_CHAPTER_E_MASK_LENGTH wire_defs = 4
   \<and> chapterE wire_defs
        (bufferOf [0x20, 0, 1, 0, 0x10, 0, 0x84, 1, 2, 3, 4, 5, 6, 7, 8, 9, 10] :: 32 buffer)
        0x00100000 \<lparr>cursor = 6, minimumLen = 6\<rparr> = Inr \<lparr>cursor = 17, minimumLen = 17\<rparr>
   \<and> chapterE wire_defs
        (bufferOf [0x20, 0, 1, 0, 0x10, 0, 0x84, 1, 2, 3, 4, 5, 6, 7, 8, 9] :: 32 buffer)
        0x00100000 \<lparr>cursor = 6, minimumLen = 6\<rparr>
       = Inl (PARSER_NOT_ENOUGH_DATA, \<lparr>cursor = 7, minimumLen = 17\<rparr>)
   \<and> chapterE wire_defs (bufferOf [0x20, 0, 1, 0, 0x10, 0, 0x00, 1, 2] :: 32 buffer)
        0x00100000 \<lparr>cursor = 6, minimumLen = 6\<rparr> = Inr \<lparr>cursor = 9, minimumLen = 9\<rparr>
   \<and> chapterE wire_defs (bufferOf [0x20, 0, 1, 0, 0x10, 0] :: 32 buffer)
        0x00100000 \<lparr>cursor = 6, minimumLen = 6\<rparr>
       = Inl (PARSER_NOT_ENOUGH_DATA, \<lparr>cursor = 6, minimumLen = 7\<rparr>)"
  using
    chapterE_log_count [of "0x00100000" wire_defs
      "bufferOf [0x20, 0, 1, 0, 0x10, 0, 0x84, 1, 2, 3, 4, 5, 6, 7, 8, 9, 10] :: 32 buffer"
      "\<lparr>cursor = 6, minimumLen = 6\<rparr>"]
    chapterE_log_count [of "0x00100000" wire_defs
      "bufferOf [0x20, 0, 1, 0, 0x10, 0, 0x84, 1, 2, 3, 4, 5, 6, 7, 8, 9] :: 32 buffer"
      "\<lparr>cursor = 6, minimumLen = 6\<rparr>"]
    chapterE_log_count [of "0x00100000" wire_defs
      "bufferOf [0x20, 0, 1, 0, 0x10, 0, 0x00, 1, 2] :: 32 buffer" "\<lparr>cursor = 6, minimumLen = 6\<rparr>"]
    chapterE_log_count [of "0x00100000" wire_defs
      "bufferOf [0x20, 0, 1, 0, 0x10, 0] :: 32 buffer" "\<lparr>cursor = 6, minimumLen = 6\<rparr>"]
  by (simp add: wire_defs_def bufferOf_def Let_def)

text \<open>
  C4. A run on 8 bytes: journal header with the A bit and one channel, a channel journal with
  the flag of Chapter A only, and the two bytes \<open>0x01 0x00\<close>. The header of Chapter A
  announces two entries, that is four bytes after the header, of which the buffer holds one.
  Chapter A adds 2 to the budget before it reads its header and nothing afterwards: the run
  passes every check, walks the cursor to 11, three bytes beyond the buffer, and reaches the
  end of the function with the budget at 8. With one byte required before the header and
  four before the entries the budget would be 11 and the run would stop at the second check.
  The run is the same with \<open>size_t\<close> at 32 and at 16 bits.
\<close>

theorem chapterA_walks_unbudgeted_entries:
  "decodeJournalSection wire_defs
     (bufferOf [0x20, 0x00, 0x01, 0x00, 0x04, 0x00, 0x01, 0x00] :: 32 buffer)
     \<lparr>cursor = 0, minimumLen = 0\<rparr> = (NoReturn, \<lparr>cursor = 11, minimumLen = 8\<rparr>)
   \<and> decodeJournalSection wire_defs
     (bufferOf [0x20, 0x00, 0x01, 0x00, 0x04, 0x00, 0x01, 0x00] :: 16 buffer)
     \<lparr>cursor = 0, minimumLen = 0\<rparr> = (NoReturn, \<lparr>cursor = 11, minimumLen = 8\<rparr>)"
  by (simp add: run_defs)

subsection \<open>The loop over the channel journals\<close>

text \<open>
  C5. A run on 6 bytes: journal header with the A bit and \<open>TOTCHAN = 1\<close>, that is two
  channel journals, and one channel journal without chapters. The 3 bytes of a channel
  journal header are added to the budget once, before the loop; the second pass reads its
  three bytes at the indices 6 to 8, beyond the available length, with the budget still at
  6, and the run reaches the end of the function with the cursor at 9. The run is the same
  with \<open>size_t\<close> at 32 and at 16 bits.
\<close>

theorem second_channel_header_unbudgeted:
  "decodeJournalSection wire_defs (bufferOf [0x21, 0x00, 0x01, 0x00, 0x00, 0x00] :: 32 buffer)
     \<lparr>cursor = 0, minimumLen = 0\<rparr> = (NoReturn, \<lparr>cursor = 9, minimumLen = 6\<rparr>)
   \<and> decodeJournalSection wire_defs (bufferOf [0x21, 0x00, 0x01, 0x00, 0x00, 0x00] :: 16 buffer)
     \<lparr>cursor = 0, minimumLen = 0\<rparr> = (NoReturn, \<lparr>cursor = 9, minimumLen = 6\<rparr>)"
  by (simp add: run_defs)

subsection \<open>Returns for lack of data\<close>

text \<open>
  The result of every step agrees with the list of its checks.
\<close>

lemma agrees_checksThen:
  assumes "agrees buf (f s) (cs s)"
    and "\<And>t. f s = Inr t \<Longrightarrow> agrees buf (g t) (rest t)"
  shows "agrees buf (andThen (f s) g) (checksThen cs f rest s)"
proof (cases "f s")
  case (Inl e)
  then show ?thesis
    using assms(1) by (simp add: checksThen_def)
next
  case (Inr t)
  have pass: "\<forall>(t, n) \<in> set (cs s). \<not> getLength buf < minimumLen t + n"
    using assms(1) Inr by (simp add: agrees_def)
  show ?thesis
  proof (cases "g t")
    case g: (Inl e)
    obtain v s' where e: "e = (v, s')" by (cases e)
    show ?thesis
    proof (cases "v = PARSER_NOT_ENOUGH_DATA")
      case True
      then have r: "rest t \<noteq> []"
        and b: "\<forall>(t, n) \<in> set (butlast (rest t)). \<not> getLength buf < minimumLen t + n"
        and l: "case last (rest t) of (t, n) \<Rightarrow>
                  getLength buf < minimumLen t + n \<and> s' = t\<lparr>minimumLen := minimumLen t + n\<rparr>"
        using assms(2) [OF Inr] g e by (simp_all add: agrees_def)
      show ?thesis
        using Inr g e True r b l pass
        by (auto simp add: agrees_def checksThen_def butlast_append)
    next
      case False
      then show ?thesis
        using assms(2) [OF Inr] Inr g e pass by (auto simp add: agrees_def checksThen_def)
    qed
  next
    case g: (Inr s')
    then show ?thesis
      using assms(2) [OF Inr] Inr pass by (auto simp add: agrees_def checksThen_def)
  qed
qed

lemma agrees_chapterP: "agrees buf (chapterP d buf chanflags s) (chapterP_checks d chanflags s)"
  by (simp add: chapterP_fixed chapterP_checks_def agrees_def)

lemma agrees_chapterC: "agrees buf (chapterC d buf chanflags s) []"
  by (simp add: chapterC_skip agrees_def)

lemma agrees_chapterM: "agrees buf (chapterM d buf chanflags s) []"
  by (simp add: chapterM_skip agrees_def)

lemma agrees_chapterW: "agrees buf (chapterW d buf chanflags s) (chapterW_checks d chanflags s)"
  by (simp add: chapterW_fixed chapterW_checks_def agrees_def)

lemma agrees_chapterT: "agrees buf (chapterT d buf chanflags s) (chapterT_checks d chanflags s)"
  by (simp add: chapterT_fixed chapterT_checks_def agrees_def)

lemma agrees_chapterA: "agrees buf (chapterA d buf chanflags s) (chapterA_checks d chanflags s)"
  by (simp add: chapterA_def requireBytes_eq chapterA_checks_def agrees_def Let_def)

lemma agrees_chapterN:
  "agrees buf (chapterN d buf chanflags s) (chapterN_checks d buf chanflags s)"
  by (simp add: chapterN_def requireBytes_eq advance_def chapterN_checks_def agrees_def Let_def
      split: option.split)

lemma agrees_chapterE:
  "agrees buf (chapterE d buf chanflags s) (chapterE_checks d buf chanflags s)"
  by (simp add: chapterE_def requireBytes_eq advance_def chapterE_checks_def agrees_def Let_def)

lemma agrees_chapters:
  "agrees buf (chapters d buf chanflags s) (chapters_checks d buf chanflags s)"
  unfolding chapters_chain chapters_checks_def
  by (intro agrees_checksThen agrees_chapterP agrees_chapterC agrees_chapterM agrees_chapterW
      agrees_chapterN agrees_chapterE agrees_chapterT agrees_chapterA)

lemma agrees_channelJournal:
  "agrees buf (channelJournal d buf s) (channelJournal_checks d buf s)"
  by (simp add: channelJournal_def channelJournal_checks_def Let_def agrees_chapters)

lemma agrees_channelJournals:
  "agrees buf (channelJournals d buf n s) (channelJournals_checks d buf n s)"
proof (induction n arbitrary: s)
  case 0
  show ?case by (simp add: agrees_def)
next
  case (Suc n)
  show ?case
    unfolding channelJournals.simps channelJournals_checks.simps
    by (rule agrees_checksThen [OF agrees_channelJournal Suc.IH])
qed

lemma agrees_Cons:
  assumes "\<not> getLength buf < minimumLen t + n" and "agrees buf r cs"
  shows "agrees buf r ((t, n) # cs)"
proof (cases r)
  case (Inl e)
  obtain v s' where e: "e = (v, s')" by (cases e)
  show ?thesis
    using assms Inl e by (cases "cs = []") (auto simp add: agrees_def)
next
  case (Inr s')
  then show ?thesis
    using assms by (auto simp add: agrees_def)
qed

lemma agrees_journalBody: "agrees buf (journalBody d buf s) (lengthChecks d buf s)"
proof -
  let ?s3 = "s\<lparr>cursor := cursor s + 3, minimumLen := minimumLen s + 6\<rparr>"
  let ?n = "unat (totalChannelsOf d (peek buf (cursor s)))"
  have checks: "lengthChecks d buf s =
      (s, 1) #
      (if getLength buf < minimumLen s + 1 then []
       else (s\<lparr>cursor := cursor s + 1, minimumLen := minimumLen s + 1\<rparr>, 2) #
         (if getLength buf < minimumLen s + 3 then []
          else if peek buf (cursor s) AND RTP_MIDI_JS_FLAG_A d = 0 then []
          else (s\<lparr>cursor := cursor s + 3, minimumLen := minimumLen s + 3\<rparr>, 3) #
            (if getLength buf < minimumLen s + 6 then []
             else channelJournals_checks d buf ?n ?s3)))"
    by (simp add: lengthChecks_def requireBytes_eq advance_def Let_def add.assoc)
  have loop: "agrees buf (channelJournals d buf ?n ?s3) (channelJournals_checks d buf ?n ?s3)"
    by (rule agrees_channelJournals)
  consider (a) "getLength buf < minimumLen s + 1"
    | (b) "\<not> getLength buf < minimumLen s + 1" "getLength buf < minimumLen s + 3"
    | (c) "\<not> getLength buf < minimumLen s + 1" "\<not> getLength buf < minimumLen s + 3"
        "peek buf (cursor s) AND RTP_MIDI_JS_FLAG_A d = 0"
    | (d) "\<not> getLength buf < minimumLen s + 1" "\<not> getLength buf < minimumLen s + 3"
        "peek buf (cursor s) AND RTP_MIDI_JS_FLAG_A d \<noteq> 0" "getLength buf < minimumLen s + 6"
    | (e) "\<not> getLength buf < minimumLen s + 1" "\<not> getLength buf < minimumLen s + 3"
        "peek buf (cursor s) AND RTP_MIDI_JS_FLAG_A d \<noteq> 0" "\<not> getLength buf < minimumLen s + 6"
    by blast
  then show ?thesis
  proof cases
    case a
    then show ?thesis
      by (simp add: checks journalBody_unfold agrees_def)
  next
    case b
    then show ?thesis
      by (simp add: checks journalBody_unfold agrees_def add.assoc)
  next
    case c
    then show ?thesis
      by (simp add: checks journalBody_unfold agrees_def add.assoc)
  next
    case d
    then show ?thesis
      by (simp add: checks journalBody_unfold agrees_def add.assoc)
  next
    case e
    have "agrees buf (channelJournals d buf ?n ?s3)
        ((s, 1) # (s\<lparr>cursor := cursor s + 1, minimumLen := minimumLen s + 1\<rparr>, 2) #
         (s\<lparr>cursor := cursor s + 3, minimumLen := minimumLen s + 3\<rparr>, 3) #
         channelJournals_checks d buf ?n ?s3)"
      using e loop by (intro agrees_Cons) (simp_all add: add.assoc)
    then show ?thesis
      using e by (simp add: checks journalBody_unfold)
  qed
qed

text \<open>
  C3 (as amended). \<open>decodeJournalSection\<close> returns \<open>PARSER_NOT_ENOUGH_DATA\<close> exactly when
  the last length check of the run fails; all the checks before it have passed. The
  references it leaves are those found immediately before that check with the amount of
  the check added to the budget: the cursor is as it was before the failing check, and the
  budget is the budget before the check plus the bytes the check asked for (the addition to
  \<open>minimumLen\<close> precedes the comparison and is not undone), which is above the available
  length.
\<close>

theorem not_enough_data_at_failing_check:
  "(decodeJournalSection d buf s = (Returned PARSER_NOT_ENOUGH_DATA, s') \<longleftrightarrow>
      (case last (lengthChecks d buf s) of (t, n) \<Rightarrow>
         getLength buf < minimumLen t + n \<and> s' = t\<lparr>minimumLen := minimumLen t + n\<rparr>))
   \<and> (\<forall>(t, n) \<in> set (butlast (lengthChecks d buf s)). \<not> getLength buf < minimumLen t + n)
   \<and> (decodeJournalSection d buf s = (Returned PARSER_NOT_ENOUGH_DATA, s') \<longrightarrow>
        (case last (lengthChecks d buf s) of (t, n) \<Rightarrow>
           cursor s' = cursor t \<and> minimumLen s' = minimumLen t + n)
        \<and> getLength buf < minimumLen s')"
proof -
  let ?cs = "lengthChecks d buf s"
  obtain t n where l: "last ?cs = (t, n)"
    by (cases "last ?cs")
  have ne: "?cs \<noteq> []"
    by (simp add: lengthChecks_def)
  then have mem: "(t, n) \<in> set ?cs"
    using l last_in_set by metis
  have a: "agrees buf (journalBody d buf s) ?cs"
    by (rule agrees_journalBody)
  have butl: "\<forall>(t, n) \<in> set (butlast ?cs). \<not> getLength buf < minimumLen t + n"
  proof (cases "journalBody d buf s")
    case (Inl e)
    obtain v s1 where e: "e = (v, s1)" by (cases e)
    show ?thesis
      using a Inl e by (cases "v = PARSER_NOT_ENOUGH_DATA")
        (auto simp add: agrees_def dest: in_set_butlastD)
  next
    case (Inr s1)
    then show ?thesis
      using a by (auto simp add: agrees_def dest: in_set_butlastD)
  qed
  have iff: "decodeJournalSection d buf s = (Returned PARSER_NOT_ENOUGH_DATA, s') \<longleftrightarrow>
      getLength buf < minimumLen t + n \<and> s' = t\<lparr>minimumLen := minimumLen t + n\<rparr>"
  proof (cases "journalBody d buf s")
    case (Inl e)
    obtain v s1 where e: "e = (v, s1)" by (cases e)
    show ?thesis
      using a Inl e l mem by (cases "v = PARSER_NOT_ENOUGH_DATA")
        (auto simp add: agrees_def decodeJournalSection_def)
  next
    case (Inr s1)
    then show ?thesis
      using a l mem by (auto simp add: agrees_def decodeJournalSection_def)
  qed
  show ?thesis
    using iff butl by (auto simp add: l)
qed

text \<open>
  Seven bytes of a journal with one channel journal and the W flag: four checks, of which
  the last, that of Chapter W, fails at cursor 6 and leaves the budget at 6 + 2.
\<close>

theorem not_enough_data_at_failing_check_witness:
  "lengthChecks wire_defs (bufferOf [0x20, 0, 1, 0, 0x40, 0, 0xAA] :: 32 buffer)
       \<lparr>cursor = 0, minimumLen = 0\<rparr>
     = [(\<lparr>cursor = 0, minimumLen = 0\<rparr>, 1), (\<lparr>cursor = 1, minimumLen = 1\<rparr>, 2),
        (\<lparr>cursor = 3, minimumLen = 3\<rparr>, 3), (\<lparr>cursor = 6, minimumLen = 6\<rparr>, 2)]
   \<and> getLength (bufferOf [0x20, 0, 1, 0, 0x40, 0, 0xAA] :: 32 buffer)
        < minimumLen (\<lparr>cursor = 6, minimumLen = 6\<rparr> :: 32 state) + 2
   \<and> decodeJournalSection wire_defs (bufferOf [0x20, 0, 1, 0, 0x40, 0, 0xAA] :: 32 buffer)
         \<lparr>cursor = 0, minimumLen = 0\<rparr>
       = (Returned PARSER_NOT_ENOUGH_DATA, \<lparr>cursor = 6, minimumLen = 8\<rparr>)"
  using not_enough_data_at_failing_check
    [where d = wire_defs and buf = "bufferOf [0x20, 0, 1, 0, 0x40, 0, 0xAA] :: 32 buffer"
       and s = "\<lparr>cursor = 0, minimumLen = 0\<rparr>" and s' = "\<lparr>cursor = 6, minimumLen = 8\<rparr>"]
  by (simp add: checks_defs run_defs)

text \<open>
  C3 as stated fails on the empty buffer: the first check fails, and the budget is 1 at the
  return, not the 0 it was before the check.
\<close>

theorem budget_not_restored_counterexample:
  "decodeJournalSection wire_defs (bufferOf [] :: 32 buffer) \<lparr>cursor = 0, minimumLen = 0\<rparr>
     = (Returned PARSER_NOT_ENOUGH_DATA, \<lparr>cursor = 0, minimumLen = 1\<rparr>)
   \<and> minimumLen (snd (decodeJournalSection wire_defs (bufferOf [] :: 32 buffer)
                        \<lparr>cursor = 0, minimumLen = 0\<rparr>))
       \<noteq> minimumLen (\<lparr>cursor = 0, minimumLen = 0\<rparr> :: 32 state)"
  by (simp add: run_defs)

subsection \<open>Budget and cursor of a complete run\<close>

text \<open>
  The relation \<open>covers\<close> holds for every chapter, for a channel journal and for the loop,
  when the available length leaves 4128 values below the end of \<open>size_t\<close> and the length
  mask of Chapter A has 7 bits.
\<close>

lemma budget_raise:
  fixes buf :: "('s::len) buffer"
  assumes room: "unat (getLength buf) + 4128 < 2 ^ LENGTH('s)"
    and within: "m \<le> getLength buf"
    and n: "n \<le> 765"
    and pass: "\<not> getLength buf < m + of_nat n"
  shows "unat (m + of_nat n) = unat m + n" "m \<le> m + of_nat n" "m + of_nat n \<le> getLength buf"
proof -
  have m: "unat m \<le> unat (getLength buf)"
    using within by (simp add: word_le_nat_alt)
  have "n < 2 ^ LENGTH('s)"
    using room n by simp
  then have un: "unat (of_nat n :: 's word) = n"
    by (simp add: unat_of_nat)
  have "unat m + unat (of_nat n :: 's word) < 2 ^ LENGTH('s)"
    using m room n un by simp
  then have "unat (m + of_nat n) = unat m + unat (of_nat n :: 's word)"
    by (simp only: unat_add_lem)
  then show u: "unat (m + of_nat n) = unat m + n"
    using un by simp
  then show "m \<le> m + of_nat n"
    by (simp add: word_le_nat_alt)
  show "m + of_nat n \<le> getLength buf"
    using pass by (simp add: not_less)
qed

lemma covers_weaken:
  "covers buf k K s r cs \<Longrightarrow> k' \<le> k \<Longrightarrow> K \<le> K' \<Longrightarrow> covers buf k' K' s r cs"
  unfolding covers_def
  by (cases r) (simp, fastforce)

lemma covers_checksThen:
  assumes "covers buf k1 K1 s (f s) (cs s)"
    and "\<And>t. f s = Inr t \<Longrightarrow> covers buf k2 K2 t (g t) (rest t)"
  shows "covers buf (k1 + k2) (K1 + K2) s (andThen (f s) g) (checksThen cs f rest s)"
proof (cases "f s")
  case (Inl e)
  then show ?thesis by (simp add: covers_def)
next
  case (Inr t)
  show ?thesis
  proof (cases "g t")
    case (Inl e)
    then show ?thesis using Inr by (simp add: covers_def)
  next
    case g: (Inr s')
    show ?thesis
    proof -
      have "minimumLen s' \<le> getLength buf
          \<and> (\<exists>a b. cursor s' = cursor s + of_nat a
                \<and> unat (minimumLen s') = unat (minimumLen s) + b
                \<and> b + (k1 + k2) \<le> a \<and> a \<le> b + (K1 + K2))
          \<and> (\<forall>(t, n) \<in> set (cs s @ rest t).
                minimumLen s \<le> minimumLen t \<and> minimumLen t \<le> minimumLen t + n
                \<and> minimumLen t + n \<le> minimumLen s')"
        if w: "minimumLen s \<le> getLength buf"
      proof -
        from assms(1) Inr w obtain a1 b1 where
          t: "minimumLen t \<le> getLength buf"
          and c1: "cursor t = cursor s + of_nat a1"
          and m1: "unat (minimumLen t) = unat (minimumLen s) + b1"
          and i1: "b1 + k1 \<le> a1" "a1 \<le> b1 + K1"
          and ch1: "\<forall>(u, n) \<in> set (cs s).
                minimumLen s \<le> minimumLen u \<and> minimumLen u \<le> minimumLen u + n
                \<and> minimumLen u + n \<le> minimumLen t"
          by (auto simp add: covers_def)
        from assms(2) [OF Inr] g t obtain a2 b2 where
          s': "minimumLen s' \<le> getLength buf"
          and c2: "cursor s' = cursor t + of_nat a2"
          and m2: "unat (minimumLen s') = unat (minimumLen t) + b2"
          and i2: "b2 + k2 \<le> a2" "a2 \<le> b2 + K2"
          and ch2: "\<forall>(u, n) \<in> set (rest t).
                minimumLen t \<le> minimumLen u \<and> minimumLen u \<le> minimumLen u + n
                \<and> minimumLen u + n \<le> minimumLen s'"
          by (auto simp add: covers_def)
        have st: "minimumLen s \<le> minimumLen t" and ts: "minimumLen t \<le> minimumLen s'"
          using m1 m2 by (simp_all add: word_le_nat_alt)
        have "cursor s' = cursor s + of_nat (a1 + a2)"
          using c1 c2 by simp
        moreover have "unat (minimumLen s') = unat (minimumLen s) + (b1 + b2)"
          using m1 m2 by simp
        moreover have "(b1 + b2) + (k1 + k2) \<le> a1 + a2" "a1 + a2 \<le> (b1 + b2) + (K1 + K2)"
          using i1 i2 by simp_all
        moreover have "\<forall>(u, n) \<in> set (cs s @ rest t).
                minimumLen s \<le> minimumLen u \<and> minimumLen u \<le> minimumLen u + n
                \<and> minimumLen u + n \<le> minimumLen s'"
          using ch1 ch2 st ts by (auto dest: order_trans)
        ultimately show ?thesis
          using s' by blast
      qed
      then show ?thesis
        using Inr g by (simp add: covers_def checksThen_def)
    qed
  qed
qed

lemma covers_fixed:
  fixes buf :: "('s::len) buffer"
  assumes room: "unat (getLength buf) + 4128 < 2 ^ LENGTH('s)" and n: "n \<le> 765"
  shows "covers buf 0 0 s
      (if getLength buf < minimumLen s + of_nat n
       then Inl (PARSER_NOT_ENOUGH_DATA, s\<lparr>minimumLen := minimumLen s + of_nat n\<rparr>)
       else Inr (s\<lparr>cursor := cursor s + of_nat n, minimumLen := minimumLen s + of_nat n\<rparr>))
      [(s, of_nat n)]"
proof (cases "getLength buf < minimumLen s + of_nat n")
  case True
  then show ?thesis by (simp add: covers_def)
next
  case False
  show ?thesis
  proof -
    have "minimumLen s + of_nat n \<le> getLength buf
        \<and> (\<exists>a b. cursor s + of_nat n = cursor s + of_nat a
              \<and> unat (minimumLen s + of_nat n) = unat (minimumLen s) + b \<and> b + 0 \<le> a
              \<and> a \<le> b + 0)
        \<and> minimumLen s \<le> minimumLen s + of_nat n"
      if w: "minimumLen s \<le> getLength buf"
      using budget_raise [OF room w n False] by auto
    then show ?thesis
      using False by (simp add: covers_def)
  qed
qed

lemma covers_requireAndAdvance:
  fixes buf :: "('s::len) buffer"
  assumes "unat (getLength buf) + 4128 < 2 ^ LENGTH('s)" and "n \<le> 765"
  shows "covers buf 0 0 s (requireAndAdvance buf (of_nat n) s) [(s, of_nat n)]"
  unfolding requireAndAdvance_eq using assms by (rule covers_fixed)

lemma covers_skip: "covers buf 0 0 s (Inr s) []"
proof -
  have "\<exists>a b. cursor s = cursor s + of_nat a
      \<and> unat (minimumLen s) = unat (minimumLen s) + b \<and> b + 0 \<le> a \<and> a \<le> b + 0"
    by (intro exI [of _ 0]) simp
  then show ?thesis
    unfolding covers_def by simp
qed

lemma covers_Inl: "covers buf k K s (Inl e) cs"
  by (simp add: covers_def)

lemma covers_chapterP:
  fixes buf :: "('s::len) buffer"
  assumes "unat (getLength buf) + 4128 < 2 ^ LENGTH('s)"
  shows "covers buf 0 0 s (chapterP d buf chanflags s) (chapterP_checks d chanflags s)"
  using covers_requireAndAdvance [OF assms, of 3 s] covers_skip [of buf s]
  by (simp add: chapterP_def chapterP_checks_def requireAndAdvance_def)

lemma covers_chapterW:
  fixes buf :: "('s::len) buffer"
  assumes "unat (getLength buf) + 4128 < 2 ^ LENGTH('s)"
  shows "covers buf 0 0 s (chapterW d buf chanflags s) (chapterW_checks d chanflags s)"
  using covers_requireAndAdvance [OF assms, of 2 s] covers_skip [of buf s]
  by (simp add: chapterW_def chapterW_checks_def requireAndAdvance_def)

lemma covers_chapterT:
  fixes buf :: "('s::len) buffer"
  assumes "unat (getLength buf) + 4128 < 2 ^ LENGTH('s)"
  shows "covers buf 0 0 s (chapterT d buf chanflags s) (chapterT_checks d chanflags s)"
  using covers_requireAndAdvance [OF assms, of 1 s] covers_skip [of buf s]
  by (simp add: chapterT_def chapterT_checks_def requireAndAdvance_def)

lemma covers_chapterC: "covers buf 0 0 s (chapterC d buf chanflags s) []"
  by (simp add: chapterC_skip covers_skip)

lemma covers_chapterM: "covers buf 0 0 s (chapterM d buf chanflags s) []"
  by (simp add: chapterM_skip covers_skip)

lemma covers_two_steps:
  fixes buf :: "('s::len) buffer"
  assumes room: "unat (getLength buf) + 4128 < 2 ^ LENGTH('s)"
    and "n1 \<le> 765" "n2 \<le> 765"
  shows "covers buf 0 0 s
      (andThen (requireAndAdvance buf (of_nat n1) s) (requireAndAdvance buf (of_nat n2)))
      (checksThen (\<lambda>s. [(s, of_nat n1)]) (requireAndAdvance buf (of_nat n1))
         (\<lambda>t. [(t, of_nat n2)]) s)"
  using covers_checksThen [of buf 0 0 s "requireAndAdvance buf (of_nat n1)"
      "\<lambda>s. [(s, of_nat n1)]" 0 0 "requireAndAdvance buf (of_nat n2)" "\<lambda>t. [(t, of_nat n2)]"]
    covers_requireAndAdvance [OF room] assms(2,3)
  by simp

lemma covers_chapterN:
  fixes buf :: "('s::len) buffer"
  assumes room: "unat (getLength buf) + 4128 < 2 ^ LENGTH('s)"
  shows "covers buf 0 0 s (chapterN d buf chanflags s) (chapterN_checks d buf chanflags s)"
proof (cases "chanflags AND RTP_MIDI_CJ_FLAG_N d \<noteq> 0")
  case False
  then show ?thesis
    by (simp add: chapterN_def chapterN_checks_def covers_skip)
next
  case True
  let ?header = "ntohs_value16 (peek buf (cursor s)) (peek buf (cursor s + 1))"
  let ?low = "lowOf d ?header" and ?high = "highOf d ?header"
  show ?thesis
  proof (cases "offbitCountOf ?low ?high")
    case None
    then have "\<exists>e. chapterN d buf chanflags s = Inl e"
      using True by (simp add: chapterN_def requireBytes_eq advance_def Let_def)
    then show ?thesis
      by (auto simp add: covers_Inl)
  next
    case (Some offbitCount)
    let ?n = "unat (escapedLogListCount (logListCountOf d ?header) ?low ?high) * 2
              + unat offbitCount"
    have n: "?n \<le> 765"
      using unat_byte_le [of "escapedLogListCount (logListCountOf d ?header) ?low ?high"]
        unat_byte_le [of offbitCount]
      by simp
    have r: "chapterN d buf chanflags s =
        andThen (requireAndAdvance buf (of_nat 2) s) (requireAndAdvance buf (of_nat ?n))"
      using True Some
      by (simp add: chapterN_def requireAndAdvance_eq requireBytes_eq advance_def Let_def)
    have c: "chapterN_checks d buf chanflags s =
        checksThen (\<lambda>s. [(s, of_nat 2)]) (requireAndAdvance buf (of_nat 2))
          (\<lambda>t. [(t, of_nat ?n)]) s"
      using True Some
      by (simp add: chapterN_checks_def checksThen_def requireAndAdvance_eq requireBytes_eq
          advance_def Let_def)
    show ?thesis
      unfolding r c by (rule covers_two_steps [OF room _ n]) simp
  qed
qed

lemma covers_chapterE:
  fixes buf :: "('s::len) buffer"
  assumes room: "unat (getLength buf) + 4128 < 2 ^ LENGTH('s)"
  shows "covers buf 0 0 s (chapterE d buf chanflags s) (chapterE_checks d buf chanflags s)"
proof (cases "chanflags AND RTP_MIDI_CJ_FLAG_E d \<noteq> 0")
  case False
  then show ?thesis
    by (simp add: chapterE_def chapterE_checks_def covers_skip)
next
  case True
  let ?n = "unat ((peek buf (cursor s) AND RTP_MIDI_CJ_CHAPTER_E_MASK_LENGTH d) + 1) * 2"
  have n: "?n \<le> 765"
    using unat_byte_le [of "(peek buf (cursor s) AND RTP_MIDI_CJ_CHAPTER_E_MASK_LENGTH d) + 1"]
    by simp
  have r: "chapterE d buf chanflags s =
      andThen (requireAndAdvance buf (of_nat 1) s) (requireAndAdvance buf (of_nat ?n))"
    using True
    by (simp add: chapterE_def requireAndAdvance_eq requireBytes_eq advance_def Let_def
        walkEntries_advance mult.commute)
  have c: "chapterE_checks d buf chanflags s =
      checksThen (\<lambda>s. [(s, of_nat 1)]) (requireAndAdvance buf (of_nat 1))
        (\<lambda>t. [(t, of_nat ?n)]) s"
    using True
    by (simp add: chapterE_checks_def checksThen_def requireAndAdvance_eq requireBytes_eq
        advance_def Let_def)
  show ?thesis
    unfolding r c by (rule covers_two_steps [OF room _ n]) simp
qed

lemma covers_chapterA:
  fixes buf :: "('s::len) buffer"
  assumes room: "unat (getLength buf) + 4128 < 2 ^ LENGTH('s)"
    and mask: "RTP_MIDI_CJ_CHAPTER_A_MASK_LENGTH d = 0x7F"
  shows "covers buf 0 255 s (chapterA d buf chanflags s) (chapterA_checks d chanflags s)"
proof (cases "chanflags AND RTP_MIDI_CJ_FLAG_A d \<noteq> 0")
  case False
  then show ?thesis
    using covers_weaken [OF covers_skip [of buf s], of 0 255]
    by (simp add: chapterA_def chapterA_checks_def)
next
  case True
  let ?lc = "unat ((peek buf (cursor s) AND RTP_MIDI_CJ_CHAPTER_A_MASK_LENGTH d) + 1)"
  have lc: "1 \<le> ?lc" "?lc \<le> 128"
    using masked_count [of "0x7F" "peek buf (cursor s)"] mask by simp_all
  show ?thesis
  proof (cases "getLength buf < minimumLen s + 2")
    case fail: True
    then show ?thesis
      using True by (simp add: chapterA_result covers_Inl)
  next
    case pass: False
    have res: "chapterA d buf chanflags s =
        Inr (s\<lparr>cursor := cursor s + of_nat (1 + ?lc * 2), minimumLen := minimumLen s + 2\<rparr>)"
      using True pass by (simp add: chapterA_result)
    have "minimumLen s + 2 \<le> getLength buf
        \<and> (\<exists>a b. cursor s + of_nat (1 + ?lc * 2) = cursor s + of_nat a
              \<and> unat (minimumLen s + 2) = unat (minimumLen s) + b \<and> b + 0 \<le> a \<and> a \<le> b + 255)
        \<and> minimumLen s \<le> minimumLen s + 2"
      if w: "minimumLen s \<le> getLength buf"
    proof -
      have p: "\<not> getLength buf < minimumLen s + of_nat 2"
        using pass by simp
      have "unat (minimumLen s + 2) = unat (minimumLen s) + 2"
        "minimumLen s \<le> minimumLen s + 2" "minimumLen s + 2 \<le> getLength buf"
        using budget_raise [OF room w _ p] by simp_all
      moreover have "2 + 0 \<le> 1 + ?lc * 2" "1 + ?lc * 2 \<le> 2 + 255"
        using lc by simp_all
      ultimately show ?thesis by blast
    qed
    then show ?thesis
      using True by (simp add: res covers_def chapterA_checks_def)
  qed
qed

lemma covers_chapters:
  fixes buf :: "('s::len) buffer"
  assumes room: "unat (getLength buf) + 4128 < 2 ^ LENGTH('s)"
    and mask: "RTP_MIDI_CJ_CHAPTER_A_MASK_LENGTH d = 0x7F"
  shows "covers buf 0 255 s (chapters d buf chanflags s) (chapters_checks d buf chanflags s)"
proof -
  have "covers buf (0 + (0 + (0 + (0 + (0 + (0 + (0 + 0)))))))
      (0 + (0 + (0 + (0 + (0 + (0 + (0 + 255))))))) s
      (chapters d buf chanflags s) (chapters_checks d buf chanflags s)"
    unfolding chapters_chain chapters_checks_def
    by (intro covers_checksThen covers_chapterP covers_chapterC covers_chapterM covers_chapterW
        covers_chapterN covers_chapterE covers_chapterT covers_chapterA room mask)
  then show ?thesis by simp
qed

lemma covers_channelJournal:
  fixes buf :: "('s::len) buffer"
  assumes room: "unat (getLength buf) + 4128 < 2 ^ LENGTH('s)"
    and mask: "RTP_MIDI_CJ_CHAPTER_A_MASK_LENGTH d = 0x7F"
  shows "covers buf 3 258 s (channelJournal d buf s) (channelJournal_checks d buf s)"
proof -
  let ?cf = "chanflagsAt buf (cursor s)"
  have c: "covers buf 0 255 (advance 3 s) (chapters d buf ?cf (advance 3 s))
      (chapters_checks d buf ?cf (advance 3 s))"
    using room mask by (rule covers_chapters)
  show ?thesis
  proof (cases "chapters d buf ?cf (advance 3 s)")
    case (Inl e)
    then show ?thesis
      by (simp add: channelJournal_def channelJournal_checks_def Let_def covers_Inl)
  next
    case (Inr s')
    have "minimumLen s' \<le> getLength buf
        \<and> (\<exists>a b. cursor s' = cursor s + of_nat a
              \<and> unat (minimumLen s') = unat (minimumLen s) + b \<and> b + 3 \<le> a \<and> a \<le> b + 258)
        \<and> (\<forall>(t, n) \<in> set (chapters_checks d buf ?cf (advance 3 s)).
              minimumLen s \<le> minimumLen t \<and> minimumLen t \<le> minimumLen t + n
              \<and> minimumLen t + n \<le> minimumLen s')"
      if w: "minimumLen s \<le> getLength buf"
    proof -
      from c Inr w obtain a b where
        l: "minimumLen s' \<le> getLength buf"
        and cur: "cursor s' = cursor s + 3 + of_nat a"
        and m: "unat (minimumLen s') = unat (minimumLen s) + b"
        and i: "b \<le> a" "a \<le> b + 255"
        and ch: "\<forall>(t, n) \<in> set (chapters_checks d buf ?cf (advance 3 s)).
              minimumLen s \<le> minimumLen t \<and> minimumLen t \<le> minimumLen t + n
              \<and> minimumLen t + n \<le> minimumLen s'"
        by (auto simp add: covers_def advance_def)
      have "cursor s' = cursor s + of_nat (a + 3)"
        using cur by simp
      moreover have "b + 3 \<le> a + 3" "a + 3 \<le> b + 258"
        using i by simp_all
      ultimately show ?thesis
        using l m ch by blast
    qed
    then show ?thesis
      using Inr by (simp add: channelJournal_def channelJournal_checks_def Let_def covers_def)
  qed
qed

lemma covers_channelJournals:
  fixes buf :: "('s::len) buffer"
  assumes room: "unat (getLength buf) + 4128 < 2 ^ LENGTH('s)"
    and mask: "RTP_MIDI_CJ_CHAPTER_A_MASK_LENGTH d = 0x7F"
  shows "covers buf (3 * n) (258 * n) s (channelJournals d buf n s)
      (channelJournals_checks d buf n s)"
proof (induction n arbitrary: s)
  case 0
  show ?case by (simp add: covers_skip)
next
  case (Suc n)
  have "covers buf (3 + 3 * n) (258 + 258 * n) s
      (andThen (channelJournal d buf s) (channelJournals d buf n))
      (checksThen (channelJournal_checks d buf) (channelJournal d buf)
         (channelJournals_checks d buf n) s)"
    by (rule covers_checksThen [OF covers_channelJournal [OF room mask] Suc.IH])
  then show ?case by simp
qed

text \<open>
  C8 (as amended). A run that decodes the journal completely reaches the end of the body.
  Let such a run be entered with a budget that is at most the available length, with the
  available length at least 4128 below the largest \<open>size_t\<close> (so that no addition to the
  budget wraps, and the bytes consumed are fewer than \<open>size_t\<close> has values), and let the
  masks of \<open>TOTCHAN\<close> and of the length of Chapter A have the 4 and 7 bits of the wire
  layout. Then the budget does not decrease from the entry to the end, and it grows by no
  more than the number of bytes consumed, the advance of the cursor; with an entry budget
  of 0 the final budget itself is at most the bytes consumed. At every length check of the
  run the budget is at least the entry budget, the addition of the check does not wrap, and
  the raised budget is at most the final budget.
\<close>

theorem budget_growth_within_consumed:
  fixes buf :: "('s::len) buffer"
  assumes totchan: "RTP_MIDI_JS_MASK_TOTALCHANNELS d = 0x0F"
    and mask: "RTP_MIDI_CJ_CHAPTER_A_MASK_LENGTH d = 0x7F"
    and within: "minimumLen s \<le> getLength buf"
    and room: "unat (getLength buf) + 4128 < 2 ^ LENGTH('s)"
    and run: "decodeJournalSection d buf s = (NoReturn, s')"
  shows "minimumLen s \<le> minimumLen s'
       \<and> unat (minimumLen s' - minimumLen s) \<le> unat (cursor s' - cursor s)
       \<and> (minimumLen s = 0 \<longrightarrow> unat (minimumLen s') \<le> unat (cursor s' - cursor s))
       \<and> (\<forall>(t, n) \<in> set (lengthChecks d buf s).
             minimumLen s \<le> minimumLen t \<and> minimumLen t \<le> minimumLen t + n
             \<and> minimumLen t + n \<le> minimumLen s')"
proof -
  let ?m = "minimumLen s" and ?c = "cursor s"
  let ?flags = "peek buf (cursor s)"
  let ?n = "unat (totalChannelsOf d ?flags)"
  let ?s3 = "s\<lparr>cursor := ?c + 3, minimumLen := ?m + 6\<rparr>"
  have body: "journalBody d buf s = Inr s'"
    using run by (cases "journalBody d buf s") (auto simp add: decodeJournalSection_def)
  have p1: "\<not> getLength buf < ?m + 1" and p3: "\<not> getLength buf < ?m + 3"
    using body by (auto simp add: journalBody_unfold split: if_splits)
  have r1: "unat (?m + 1) = unat ?m + 1" "?m \<le> ?m + 1" "?m + 1 \<le> getLength buf"
    using budget_raise [OF room within, of 1] p1 by simp_all
  have p3': "\<not> getLength buf < (?m + 1) + of_nat 2"
    using p3 by (simp add: add.assoc)
  have r3: "unat (?m + 3) = unat ?m + 3" "?m + 1 \<le> ?m + 3" "?m + 3 \<le> getLength buf"
    using budget_raise [OF room r1(3), of 2] p3' r1(1) by (simp_all add: add.assoc)
  have key: "\<exists>a b. cursor s' = ?c + of_nat a \<and> unat (minimumLen s') = unat ?m + b
        \<and> b \<le> a \<and> a \<le> b + 4125 \<and> minimumLen s' \<le> getLength buf
        \<and> (\<forall>(t, n) \<in> set (lengthChecks d buf s).
              ?m \<le> minimumLen t \<and> minimumLen t \<le> minimumLen t + n
              \<and> minimumLen t + n \<le> minimumLen s')"
  proof (cases "?flags AND RTP_MIDI_JS_FLAG_A d = 0")
    case True
    then have s': "s' = s\<lparr>cursor := ?c + 3, minimumLen := ?m + 3\<rparr>"
      using body p1 p3 by (simp add: journalBody_unfold)
    have checks: "lengthChecks d buf s =
        [(s, 1), (s\<lparr>cursor := ?c + 1, minimumLen := ?m + 1\<rparr>, 2)]"
      using True p1 p3 by (simp add: lengthChecks_def requireBytes_eq advance_def Let_def add.assoc)
    have "cursor s' = ?c + of_nat 3" "unat (minimumLen s') = unat ?m + 3"
      using s' r3 by simp_all
    moreover have "\<forall>(t, n) \<in> set (lengthChecks d buf s).
              ?m \<le> minimumLen t \<and> minimumLen t \<le> minimumLen t + n
              \<and> minimumLen t + n \<le> minimumLen s'"
      using r1 r3 by (simp add: checks s' add.assoc)
    ultimately show ?thesis
      using r3(3) s' by (intro exI [of _ 3]) simp
  next
    case False
    then have p6: "\<not> getLength buf < ?m + 6" and loop: "channelJournals d buf ?n ?s3 = Inr s'"
      using body p1 p3 by (auto simp add: journalBody_unfold split: if_splits)
    have p6': "\<not> getLength buf < (?m + 3) + of_nat 3"
      using p6 by (simp add: add.assoc)
    have r6: "unat (?m + 6) = unat ?m + 6" "?m + 3 \<le> ?m + 6" "?m + 6 \<le> getLength buf"
      using budget_raise [OF room r3(3), of 3] p6' r3(1) by (simp_all add: add.assoc)
    have n: "1 \<le> ?n" "?n \<le> 16"
      using masked_count [of "0x0F" ?flags] totchan by (simp_all add: totalChannelsOf_def)
    have checks: "lengthChecks d buf s =
        (s, 1) # (s\<lparr>cursor := ?c + 1, minimumLen := ?m + 1\<rparr>, 2)
        # (s\<lparr>cursor := ?c + 3, minimumLen := ?m + 3\<rparr>, 3)
        # channelJournals_checks d buf ?n ?s3"
      using False p1 p3 p6
      by (simp add: lengthChecks_def requireBytes_eq advance_def Let_def add.assoc)
    from covers_channelJournals [OF room mask, of ?n ?s3] loop r6(3) obtain a b where
      l: "minimumLen s' \<le> getLength buf"
      and cur: "cursor s' = ?c + 3 + of_nat a"
      and m: "unat (minimumLen s') = unat (?m + 6) + b"
      and i: "b + 3 * ?n \<le> a" "a \<le> b + 258 * ?n"
      and ch: "\<forall>(t, k) \<in> set (channelJournals_checks d buf ?n ?s3).
            ?m + 6 \<le> minimumLen t \<and> minimumLen t \<le> minimumLen t + k
            \<and> minimumLen t + k \<le> minimumLen s'"
      by (auto simp add: covers_def)
    have m': "unat (minimumLen s') = unat ?m + (6 + b)"
      using m r6(1) by simp
    have le6: "?m + 6 \<le> minimumLen s'"
      using m by (simp add: word_le_nat_alt)
    have le06: "?m \<le> ?m + 6"
      using r6(1) by (simp add: word_le_nat_alt)
    have "cursor s' = ?c + of_nat (3 + a)"
      using cur by simp
    moreover have "6 + b \<le> 3 + a" "3 + a \<le> (6 + b) + 4125"
      using i n by simp_all
    moreover have "\<forall>(t, n) \<in> set (lengthChecks d buf s).
              ?m \<le> minimumLen t \<and> minimumLen t \<le> minimumLen t + n
              \<and> minimumLen t + n \<le> minimumLen s'"
      unfolding checks using ch r1 r3 r6 le6 le06
      by (auto simp add: add.assoc dest: order_trans)
    ultimately show ?thesis
      using m' l by blast
  qed
  then obtain a b where cur: "cursor s' = ?c + of_nat a"
    and m: "unat (minimumLen s') = unat ?m + b"
    and i: "b \<le> a" "a \<le> b + 4125"
    and l: "minimumLen s' \<le> getLength buf"
    and ch: "\<forall>(t, n) \<in> set (lengthChecks d buf s).
              ?m \<le> minimumLen t \<and> minimumLen t \<le> minimumLen t + n
              \<and> minimumLen t + n \<le> minimumLen s'"
    by blast
  have mono: "?m \<le> minimumLen s'"
    using m by (simp add: word_le_nat_alt)
  then have growth: "unat (minimumLen s' - ?m) = b"
    using m by (simp add: unat_sub)
  have "unat (minimumLen s') \<le> unat (getLength buf)"
    using l by (simp add: word_le_nat_alt)
  then have "a < 2 ^ LENGTH('s)"
    using m i room by simp
  then have "unat (of_nat a :: 's word) = a"
    by (simp add: unat_of_nat)
  moreover have "cursor s' - ?c = of_nat a"
    using cur by simp
  ultimately have consumed: "unat (cursor s' - ?c) = a"
    by simp
  have zero: "unat (minimumLen s') \<le> unat (cursor s' - ?c)" if "?m = 0"
    using that m i consumed by simp
  show ?thesis
    using mono growth consumed i ch zero by simp
qed

text \<open>
  Two channel journals, the first with the chapters P and W, the second with Chapter A and
  two entries: six checks, 19 bytes consumed, budget 13. The journal with one pitch wheel
  chapter entered at cursor 4 with budget 4: budget and cursor both grow by 8.
\<close>

theorem budget_growth_within_consumed_witness:
  "RTP_MIDI_JS_MASK_TOTALCHANNELS wire_defs = 0x0F
   \<and> RTP_MIDI_CJ_CHAPTER_A_MASK_LENGTH wire_defs = 0x7F
   \<and> minimumLen (\<lparr>cursor = 0, minimumLen = 0\<rparr> :: 32 state)
       \<le> getLength (bufferOf
             [0x21, 0, 1, 0x02, 0x40, 0, 1, 2, 3, 4, 5, 0, 0x04, 0, 0x01, 1, 2, 3, 4] :: 32 buffer)
   \<and> unat (getLength (bufferOf
             [0x21, 0, 1, 0x02, 0x40, 0, 1, 2, 3, 4, 5, 0, 0x04, 0, 0x01, 1, 2, 3, 4] :: 32 buffer))
         + 4128 < 2 ^ LENGTH(32)
   \<and> decodeJournalSection wire_defs
         (bufferOf [0x21, 0, 1, 0x02, 0x40, 0, 1, 2, 3, 4, 5, 0, 0x04, 0, 0x01, 1, 2, 3, 4]
            :: 32 buffer)
         \<lparr>cursor = 0, minimumLen = 0\<rparr> = (NoReturn, \<lparr>cursor = 19, minimumLen = 13\<rparr>)
   \<and> lengthChecks wire_defs
         (bufferOf [0x21, 0, 1, 0x02, 0x40, 0, 1, 2, 3, 4, 5, 0, 0x04, 0, 0x01, 1, 2, 3, 4]
            :: 32 buffer)
         \<lparr>cursor = 0, minimumLen = 0\<rparr>
       = [(\<lparr>cursor = 0, minimumLen = 0\<rparr>, 1), (\<lparr>cursor = 1, minimumLen = 1\<rparr>, 2),
          (\<lparr>cursor = 3, minimumLen = 3\<rparr>, 3), (\<lparr>cursor = 6, minimumLen = 6\<rparr>, 3),
          (\<lparr>cursor = 9, minimumLen = 9\<rparr>, 2), (\<lparr>cursor = 14, minimumLen = 11\<rparr>, 2)]
   \<and> unat (minimumLen (\<lparr>cursor = 19, minimumLen = 13\<rparr> :: 32 state)
           - minimumLen (\<lparr>cursor = 0, minimumLen = 0\<rparr> :: 32 state))
       \<le> unat (cursor (\<lparr>cursor = 19, minimumLen = 13\<rparr> :: 32 state)
               - cursor (\<lparr>cursor = 0, minimumLen = 0\<rparr> :: 32 state))
   \<and> decodeJournalSection wire_defs
         (bufferOf [9, 9, 9, 9, 0x20, 0, 1, 0, 0x40, 0, 5, 6] :: 32 buffer)
         \<lparr>cursor = 4, minimumLen = 4\<rparr> = (NoReturn, \<lparr>cursor = 12, minimumLen = 12\<rparr>)
   \<and> unat (minimumLen (\<lparr>cursor = 12, minimumLen = 12\<rparr> :: 32 state)
           - minimumLen (\<lparr>cursor = 4, minimumLen = 4\<rparr> :: 32 state))
       \<le> unat (cursor (\<lparr>cursor = 12, minimumLen = 12\<rparr> :: 32 state)
               - cursor (\<lparr>cursor = 4, minimumLen = 4\<rparr> :: 32 state))"
  using
    budget_growth_within_consumed [where d = wire_defs
      and buf = "bufferOf [0x21, 0, 1, 0x02, 0x40, 0, 1, 2, 3, 4, 5, 0, 0x04, 0, 0x01, 1, 2, 3, 4]
                   :: 32 buffer"
      and s = "\<lparr>cursor = 0, minimumLen = 0\<rparr>" and s' = "\<lparr>cursor = 19, minimumLen = 13\<rparr>"]
    budget_growth_within_consumed [where d = wire_defs
      and buf = "bufferOf [9, 9, 9, 9, 0x20, 0, 1, 0, 0x40, 0, 5, 6] :: 32 buffer"
      and s = "\<lparr>cursor = 4, minimumLen = 4\<rparr>" and s' = "\<lparr>cursor = 12, minimumLen = 12\<rparr>"]
  by (simp add: checks_defs run_defs)

text \<open>
  C8 as stated fails. Entered at cursor 4 with budget 4, a complete run consumes 8 bytes
  and ends with the budget at 12. Entered with the largest budget a \<open>size_t\<close> holds, the
  first addition wraps to 0, both checks of the header pass on three bytes, and the run
  ends with the budget at 2, below the budget at the entry.
\<close>

theorem final_budget_counterexample:
  "decodeJournalSection wire_defs
       (bufferOf [9, 9, 9, 9, 0x20, 0, 1, 0, 0x40, 0, 5, 6] :: 32 buffer)
       \<lparr>cursor = 4, minimumLen = 4\<rparr> = (NoReturn, \<lparr>cursor = 12, minimumLen = 12\<rparr>)
   \<and> \<not> unat (minimumLen (\<lparr>cursor = 12, minimumLen = 12\<rparr> :: 32 state))
         \<le> unat (cursor (\<lparr>cursor = 12, minimumLen = 12\<rparr> :: 32 state)
                 - cursor (\<lparr>cursor = 4, minimumLen = 4\<rparr> :: 32 state))
   \<and> decodeJournalSection wire_defs (bufferOf [0x00, 0, 1] :: 32 buffer)
       \<lparr>cursor = 0, minimumLen = 0xFFFFFFFF\<rparr> = (NoReturn, \<lparr>cursor = 3, minimumLen = 2\<rparr>)
   \<and> \<not> minimumLen (\<lparr>cursor = 0, minimumLen = 0xFFFFFFFF\<rparr> :: 32 state)
         \<le> minimumLen (\<lparr>cursor = 3, minimumLen = 2\<rparr> :: 32 state)"
  by (simp add: run_defs)

subsection \<open>No return for success\<close>

lemma requireBytes_never_Ok: "fst (finish (requireBytes buf n s)) \<noteq> Returned Ok"
  by (simp add: requireBytes_eq)

lemma chapters_never_Ok:
  "fst (finish (chapterP d buf chanflags s)) \<noteq> Returned Ok"
  "fst (finish (chapterC d buf chanflags s)) \<noteq> Returned Ok"
  "fst (finish (chapterM d buf chanflags s)) \<noteq> Returned Ok"
  "fst (finish (chapterW d buf chanflags s)) \<noteq> Returned Ok"
  "fst (finish (chapterN d buf chanflags s)) \<noteq> Returned Ok"
  "fst (finish (chapterE d buf chanflags s)) \<noteq> Returned Ok"
  "fst (finish (chapterT d buf chanflags s)) \<noteq> Returned Ok"
  "fst (finish (chapterA d buf chanflags s)) \<noteq> Returned Ok"
  by (simp_all add: chapterP_def chapterC_def chapterM_def chapterW_def chapterN_def
      chapterE_def chapterT_def chapterA_def requireBytes_eq Let_def split: option.split)

lemma channelJournal_never_Ok: "fst (finish (channelJournal d buf s)) \<noteq> Returned Ok"
  by (simp add: channelJournal_def chapters_def chaptersBeforeN_def Let_def returned_andThen
      chapters_never_Ok)

lemma channelJournals_never_Ok: "fst (finish (channelJournals d buf n s)) \<noteq> Returned Ok"
  by (induction n arbitrary: s) (simp_all add: returned_andThen channelJournal_never_Ok)

text \<open>
  C10. Every \<open>return\<close> of \<open>decodeJournalSection\<close> yields \<open>PARSER_NOT_ENOUGH_DATA\<close> or
  \<open>PARSER_UNEXPECTED_DATA\<close>, none yields a status of success. A run that decodes the
  journal completely reaches the end of the function body without a return statement: with
  the A bit clear, as soon as the two checks of the header have passed; with the A bit
  set, whenever the check before the loop has passed as well and the loop over the channel
  journals runs through.
\<close>

theorem no_return_of_success:
  "fst (decodeJournalSection d buf s) \<noteq> Returned Ok
   \<and> (fst (decodeJournalSection d buf s) = Returned PARSER_NOT_ENOUGH_DATA
        \<or> fst (decodeJournalSection d buf s) = Returned PARSER_UNEXPECTED_DATA
        \<or> fst (decodeJournalSection d buf s) = NoReturn)
   \<and> (\<not> getLength buf < minimumLen s + 1 \<and> \<not> getLength buf < minimumLen s + 3
        \<and> peek buf (cursor s) AND RTP_MIDI_JS_FLAG_A d = 0 \<longrightarrow>
        decodeJournalSection d buf s
          = (NoReturn, s\<lparr>cursor := cursor s + 3, minimumLen := minimumLen s + 3\<rparr>))
   \<and> (\<not> getLength buf < minimumLen s + 1 \<and> \<not> getLength buf < minimumLen s + 3
        \<and> \<not> getLength buf < minimumLen s + 6
        \<and> peek buf (cursor s) AND RTP_MIDI_JS_FLAG_A d \<noteq> 0
        \<and> channelJournals d buf (unat (totalChannelsOf d (peek buf (cursor s))))
             (s\<lparr>cursor := cursor s + 3, minimumLen := minimumLen s + 6\<rparr>) = Inr s' \<longrightarrow>
        decodeJournalSection d buf s = (NoReturn, s'))"
proof -
  have ok: "fst (decodeJournalSection d buf s) \<noteq> Returned Ok"
    by (simp add: decodeJournalSection_def journalBody_unfold channelJournals_never_Ok)
  obtain oc s1 where r: "decodeJournalSection d buf s = (oc, s1)"
    by (cases "decodeJournalSection d buf s")
  have "oc = Returned PARSER_NOT_ENOUGH_DATA
      \<or> oc = Returned PARSER_UNEXPECTED_DATA \<or> oc = NoReturn"
    using ok r by (cases oc) (auto intro: parser_status.exhaust)
  then show ?thesis
    using ok r by (auto simp add: decodeJournalSection_def journalBody_unfold)
qed

text \<open>
  A header with the A bit clear, and a journal with one channel journal, both complete.
\<close>

theorem no_return_of_success_witness:
  "(\<not> getLength (bufferOf [0x80, 0, 1] :: 32 buffer) < minimumLen \<lparr>cursor = 0, minimumLen = 0\<rparr> + 1
      \<and> \<not> getLength (bufferOf [0x80, 0, 1] :: 32 buffer) < minimumLen \<lparr>cursor = 0, minimumLen = 0\<rparr> + 3
      \<and> peek (bufferOf [0x80, 0, 1] :: 32 buffer) (cursor \<lparr>cursor = 0, minimumLen = 0\<rparr>)
            AND RTP_MIDI_JS_FLAG_A wire_defs = 0
      \<and> decodeJournalSection wire_defs (bufferOf [0x80, 0, 1] :: 32 buffer)
            \<lparr>cursor = 0, minimumLen = 0\<rparr>
          = (NoReturn, \<lparr>cursor = 3, minimumLen = 3\<rparr>))
   \<and> (\<not> getLength (bufferOf [0x20, 0, 1, 0, 0x40, 0, 5, 6] :: 32 buffer)
            < minimumLen \<lparr>cursor = 0, minimumLen = 0\<rparr> + 6
      \<and> peek (bufferOf [0x20, 0, 1, 0, 0x40, 0, 5, 6] :: 32 buffer)
            (cursor \<lparr>cursor = 0, minimumLen = 0\<rparr>)
            AND RTP_MIDI_JS_FLAG_A wire_defs \<noteq> 0
      \<and> channelJournals wire_defs (bufferOf [0x20, 0, 1, 0, 0x40, 0, 5, 6] :: 32 buffer)
            (unat (totalChannelsOf wire_defs
               (peek (bufferOf [0x20, 0, 1, 0, 0x40, 0, 5, 6] :: 32 buffer) 0)))
            \<lparr>cursor = 3, minimumLen = 6\<rparr> = Inr \<lparr>cursor = 8, minimumLen = 8\<rparr>
      \<and> decodeJournalSection wire_defs (bufferOf [0x20, 0, 1, 0, 0x40, 0, 5, 6] :: 32 buffer)
            \<lparr>cursor = 0, minimumLen = 0\<rparr> = (NoReturn, \<lparr>cursor = 8, minimumLen = 8\<rparr>))"
  using
    no_return_of_success [where d = wire_defs and buf = "bufferOf [0x80, 0, 1] :: 32 buffer"
      and s = "\<lparr>cursor = 0, minimumLen = 0\<rparr>"]
    no_return_of_success [where d = wire_defs
      and buf = "bufferOf [0x20, 0, 1, 0, 0x40, 0, 5, 6] :: 32 buffer"
      and s = "\<lparr>cursor = 0, minimumLen = 0\<rparr>" and s' = "\<lparr>cursor = 8, minimumLen = 8\<rparr>"]
  by (simp add: run_defs)

subsection \<open>A journal with one pitch wheel chapter\<close>

text \<open>
  C1 (as amended). The input: a top header byte with the A flag set and \<open>TOTCHAN = 0\<close>, a
  checkpoint sequence number, and one channel-flags field with the W flag set and none of
  the flags P, N, E, T, A. Started with cursor and budget at 0, the decoder requires exactly
  8 bytes: with 8 bytes (or more) available every check passes, no error status is returned
  and cursor and budget are left at 8; with fewer it returns \<open>PARSER_NOT_ENOUGH_DATA\<close>,
  with 7 bytes from the check of Chapter W. \<open>size_t\<close> has at least the 16 bits that C
  requires of it.
\<close>

theorem pitch_wheel_journal_needs_8_bytes:
  fixes buf :: "('s::len) buffer"
  assumes "16 \<le> LENGTH('s)"
    and "peek buf 0 AND RTP_MIDI_JS_FLAG_A d \<noteq> 0"
    and "peek buf 0 AND RTP_MIDI_JS_MASK_TOTALCHANNELS d = 0"
    and "chanflagsAt buf 3 AND RTP_MIDI_CJ_FLAG_W d \<noteq> 0"
    and "chanflagsAt buf 3 AND RTP_MIDI_CJ_FLAG_P d = 0"
    and "chanflagsAt buf 3 AND RTP_MIDI_CJ_FLAG_N d = 0"
    and "chanflagsAt buf 3 AND RTP_MIDI_CJ_FLAG_E d = 0"
    and "chanflagsAt buf 3 AND RTP_MIDI_CJ_FLAG_T d = 0"
    and "chanflagsAt buf 3 AND RTP_MIDI_CJ_FLAG_A d = 0"
  shows "(8 \<le> getLength buf \<longrightarrow>
            snd (decodeJournalSection d buf \<lparr>cursor = 0, minimumLen = 0\<rparr>)
              = \<lparr>cursor = 8, minimumLen = 8\<rparr>
            \<and> fst (decodeJournalSection d buf \<lparr>cursor = 0, minimumLen = 0\<rparr>)
                \<noteq> Returned PARSER_NOT_ENOUGH_DATA
            \<and> fst (decodeJournalSection d buf \<lparr>cursor = 0, minimumLen = 0\<rparr>)
                \<noteq> Returned PARSER_UNEXPECTED_DATA)
         \<and> (getLength buf < 8 \<longrightarrow>
            fst (decodeJournalSection d buf \<lparr>cursor = 0, minimumLen = 0\<rparr>)
              = Returned PARSER_NOT_ENOUGH_DATA)
         \<and> (getLength buf = 7 \<longrightarrow>
            decodeJournalSection d buf \<lparr>cursor = 0, minimumLen = 0\<rparr>
              = (Returned PARSER_NOT_ENOUGH_DATA, \<lparr>cursor = 6, minimumLen = 8\<rparr>))"
proof -
  note u = unat_small_numerals [OF assms(1)]
  define L where "L = unat (getLength buf)"
  have lt: "getLength buf < 1 \<longleftrightarrow> L < 1" "getLength buf < 3 \<longleftrightarrow> L < 3"
    "getLength buf < 6 \<longleftrightarrow> L < 6" "getLength buf < 8 \<longleftrightarrow> L < 8"
    by (simp_all only: word_less_nat_alt u L_def)
  have le: "8 \<le> getLength buf \<longleftrightarrow> 8 \<le> L"
    by (simp only: word_le_nat_alt u L_def)
  have eq: "getLength buf = 7 \<longleftrightarrow> L = 7"
    by (simp only: word_unat_eq_iff u L_def)
  have n: "unat (totalChannelsOf d (peek buf 0)) = Suc 0"
    using assms(3) by (simp add: totalChannelsOf_def)
  have ch: "channelJournal d buf \<lparr>cursor = 3, minimumLen = 6\<rparr> =
      (if getLength buf < 8 then Inl (PARSER_NOT_ENOUGH_DATA, \<lparr>cursor = 6, minimumLen = 8\<rparr>)
       else Inr \<lparr>cursor = 8, minimumLen = 8\<rparr>)"
    using assms(4-9)
    by (simp add: channelJournal_def chapters_def chaptersBeforeN_def chapterP_def chapterC_def
        chapterM_def chapterW_def chapterN_def chapterE_def chapterT_def chapterA_def
        requireBytes_eq advance_def Let_def)
  have "decodeJournalSection d buf \<lparr>cursor = 0, minimumLen = 0\<rparr> =
      (if getLength buf < 1
       then (Returned PARSER_NOT_ENOUGH_DATA, \<lparr>cursor = 0, minimumLen = 1\<rparr>)
       else if getLength buf < 3
       then (Returned PARSER_NOT_ENOUGH_DATA, \<lparr>cursor = 1, minimumLen = 3\<rparr>)
       else if getLength buf < 6
       then (Returned PARSER_NOT_ENOUGH_DATA, \<lparr>cursor = 3, minimumLen = 6\<rparr>)
       else if getLength buf < 8
       then (Returned PARSER_NOT_ENOUGH_DATA, \<lparr>cursor = 6, minimumLen = 8\<rparr>)
       else (NoReturn, \<lparr>cursor = 8, minimumLen = 8\<rparr>))"
    using assms(2) by (simp add: decodeJournalSection_def journalBody_unfold n ch)
  then have run: "decodeJournalSection d buf \<lparr>cursor = 0, minimumLen = 0\<rparr> =
      (if L < 1
       then (Returned PARSER_NOT_ENOUGH_DATA, \<lparr>cursor = 0, minimumLen = 1\<rparr>)
       else if L < 3
       then (Returned PARSER_NOT_ENOUGH_DATA, \<lparr>cursor = 1, minimumLen = 3\<rparr>)
       else if L < 6
       then (Returned PARSER_NOT_ENOUGH_DATA, \<lparr>cursor = 3, minimumLen = 6\<rparr>)
       else if L < 8
       then (Returned PARSER_NOT_ENOUGH_DATA, \<lparr>cursor = 6, minimumLen = 8\<rparr>)
       else (NoReturn, \<lparr>cursor = 8, minimumLen = 8\<rparr>))"
    by (simp only: lt)
  show ?thesis
    unfolding le lt eq run by auto
qed

text \<open>
  With the macro values of \<open>wire_defs\<close> the header byte is \<open>0x20\<close> and the channel-flags
  field \<open>0x00 0x40 0x00\<close>.
\<close>

theorem pitch_wheel_journal_needs_8_bytes_witness:
  "16 \<le> LENGTH(32)
   \<and> peek (bufferOf [0x20, 0x00, 0x01, 0x00, 0x40, 0x00, 0x12, 0x34] :: 32 buffer) 0
      AND RTP_MIDI_JS_FLAG_A wire_defs \<noteq> 0
   \<and> peek (bufferOf [0x20, 0x00, 0x01, 0x00, 0x40, 0x00, 0x12, 0x34] :: 32 buffer) 0
      AND RTP_MIDI_JS_MASK_TOTALCHANNELS wire_defs = 0
   \<and> chanflagsAt (bufferOf [0x20, 0x00, 0x01, 0x00, 0x40, 0x00, 0x12, 0x34] :: 32 buffer) 3
      = 0x00400000
   \<and> snd (decodeJournalSection wire_defs
        (bufferOf [0x20, 0x00, 0x01, 0x00, 0x40, 0x00, 0x12, 0x34] :: 32 buffer)
        \<lparr>cursor = 0, minimumLen = 0\<rparr>) = \<lparr>cursor = 8, minimumLen = 8\<rparr>
   \<and> chanflagsAt (bufferOf [0x20, 0x00, 0x01, 0x00, 0x40, 0x00, 0x12] :: 32 buffer) 3 = 0x00400000
   \<and> decodeJournalSection wire_defs
        (bufferOf [0x20, 0x00, 0x01, 0x00, 0x40, 0x00, 0x12] :: 32 buffer)
        \<lparr>cursor = 0, minimumLen = 0\<rparr>
       = (Returned PARSER_NOT_ENOUGH_DATA, \<lparr>cursor = 6, minimumLen = 8\<rparr>)"
  using
    pitch_wheel_journal_needs_8_bytes
      [of "bufferOf [0x20, 0x00, 0x01, 0x00, 0x40, 0x00, 0x12, 0x34] :: 32 buffer" wire_defs]
    pitch_wheel_journal_needs_8_bytes
      [of "bufferOf [0x20, 0x00, 0x01, 0x00, 0x40, 0x00, 0x12] :: 32 buffer" wire_defs]
  by (simp add: wire_defs_def bufferOf_def chanflagsAt_def ntohl_value32_def)

text \<open>
  C1 as stated fails. In the layout \<open>S|Y|A|H|TOTCHAN\<close> the byte \<open>0x80\<close> is the S bit: with
  it the run ends after the three header bytes, on 8 bytes and on 7 bytes alike, without a
  status. With the A bit (\<open>0x20\<close>) and 8 bytes the cursor does advance by 8, and the run
  reaches the end of the body: no \<open>Ok\<close> is returned.
\<close>

theorem pitch_wheel_scenario_counterexample:
  "decodeJournalSection wire_defs
     (bufferOf [0x80, 0x00, 0x01, 0x00, 0x40, 0x00, 0x12, 0x34] :: 32 buffer)
     \<lparr>cursor = 0, minimumLen = 0\<rparr> = (NoReturn, \<lparr>cursor = 3, minimumLen = 3\<rparr>)
   \<and> decodeJournalSection wire_defs
     (bufferOf [0x80, 0x00, 0x01, 0x00, 0x40, 0x00, 0x12] :: 32 buffer)
     \<lparr>cursor = 0, minimumLen = 0\<rparr> = (NoReturn, \<lparr>cursor = 3, minimumLen = 3\<rparr>)
   \<and> decodeJournalSection wire_defs
     (bufferOf [0x20, 0x00, 0x01, 0x00, 0x40, 0x00, 0x12, 0x34] :: 32 buffer)
     \<lparr>cursor = 0, minimumLen = 0\<rparr> = (NoReturn, \<lparr>cursor = 8, minimumLen = 8\<rparr>)"
  by (simp add: run_defs)

subsection \<open>Returns for a structural violation\<close>

lemma chapterP_accepts: "fst (finish (chapterP d buf chanflags s)) \<noteq> Returned PARSER_UNEXPECTED_DATA"
  by (simp add: chapterP_def requireBytes_def Let_def)

lemma chapterC_accepts: "fst (finish (chapterC d buf chanflags s)) \<noteq> Returned PARSER_UNEXPECTED_DATA"
  by (simp add: chapterC_def)

lemma chapterM_accepts: "fst (finish (chapterM d buf chanflags s)) \<noteq> Returned PARSER_UNEXPECTED_DATA"
  by (simp add: chapterM_def)

lemma chapterW_accepts: "fst (finish (chapterW d buf chanflags s)) \<noteq> Returned PARSER_UNEXPECTED_DATA"
  by (simp add: chapterW_def requireBytes_def Let_def)

lemma chapterE_accepts: "fst (finish (chapterE d buf chanflags s)) \<noteq> Returned PARSER_UNEXPECTED_DATA"
  by (simp add: chapterE_def requireBytes_def Let_def)

lemma chapterT_accepts: "fst (finish (chapterT d buf chanflags s)) \<noteq> Returned PARSER_UNEXPECTED_DATA"
  by (simp add: chapterT_def requireBytes_def Let_def)

lemma chapterA_accepts: "fst (finish (chapterA d buf chanflags s)) \<noteq> Returned PARSER_UNEXPECTED_DATA"
  by (simp add: chapterA_def requireBytes_def Let_def)

lemma chaptersBeforeN_accepts:
  "fst (finish (chaptersBeforeN d buf chanflags s)) \<noteq> Returned PARSER_UNEXPECTED_DATA"
  by (simp add: chaptersBeforeN_def returned_andThen chapterP_accepts chapterC_accepts
      chapterM_accepts chapterW_accepts)

lemma offbitCountOf_None: "offbitCountOf low high = None \<longleftrightarrow> illegalPair (low, high)"
  by (auto simp add: offbitCountOf_def illegalPair_def not_le)

lemma chapterN_rejects:
  "fst (finish (chapterN d buf chanflags s)) = Returned PARSER_UNEXPECTED_DATA \<longleftrightarrow>
     (\<exists>p \<in> set (chapterN_pairs d buf chanflags s). illegalPair p)"
  by (simp add: chapterN_def chapterN_pairs_def requireBytes_def advance_def Let_def
      offbitCountOf_None [symmetric] split: option.split)

lemma chapters_rejects:
  "fst (finish (chapters d buf chanflags s)) = Returned PARSER_UNEXPECTED_DATA \<longleftrightarrow>
     (\<exists>s1. chaptersBeforeN d buf chanflags s = Inr s1
        \<and> (\<exists>p \<in> set (chapterN_pairs d buf chanflags s1). illegalPair p))"
  by (simp add: chapters_def returned_andThen chaptersBeforeN_accepts chapterN_rejects
      chapterE_accepts chapterT_accepts chapterA_accepts)

lemma channelJournal_rejects:
  "fst (finish (channelJournal d buf s)) = Returned PARSER_UNEXPECTED_DATA \<longleftrightarrow>
     (\<exists>p \<in> set (channelJournal_pairs d buf s). illegalPair p)"
  by (cases "chaptersBeforeN d buf (chanflagsAt buf (cursor s)) (advance 3 s)")
    (simp_all add: channelJournal_def channelJournal_pairs_def Let_def chapters_rejects)

lemma channelJournals_rejects:
  "fst (finish (channelJournals d buf n s)) = Returned PARSER_UNEXPECTED_DATA \<longleftrightarrow>
     (\<exists>p \<in> set (channelJournals_pairs d buf n s). illegalPair p)"
proof (induction n arbitrary: s)
  case 0
  show ?case by simp
next
  case (Suc n)
  show ?case
    using channelJournal_rejects [of d buf s]
    by (cases "channelJournal d buf s") (auto simp add: Suc.IH)
qed

text \<open>
  C7. \<open>decodeJournalSection\<close> returns \<open>PARSER_UNEXPECTED_DATA\<close> if and only if one of the
  Chapter N headers that the run reads has a pair with \<open>low > high\<close> other than (15,0) and
  (15,1). No other chapter, no length check and no part of the journal header returns this
  status.
\<close>

theorem unexpected_data_iff_illegal_pair:
  "fst (decodeJournalSection d buf s) = Returned PARSER_UNEXPECTED_DATA \<longleftrightarrow>
     (\<exists>p \<in> set (observedPairs d buf s). illegalPair p)"
proof -
  let ?s3 = "s\<lparr>cursor := cursor s + 3, minimumLen := minimumLen s + 6\<rparr>"
  let ?n = "unat (totalChannelsOf d (peek buf (cursor s)))"
  have obs: "observedPairs d buf s =
      (if getLength buf < minimumLen s + 1 \<or> getLength buf < minimumLen s + 3
          \<or> peek buf (cursor s) AND RTP_MIDI_JS_FLAG_A d = 0 \<or> getLength buf < minimumLen s + 6
       then [] else channelJournals_pairs d buf ?n ?s3)"
    by (simp add: observedPairs_def requireBytes_def advance_def Let_def add.assoc)
  show ?thesis
    unfolding decodeJournalSection_def obs journalBody_unfold
    by (simp add: channelJournals_rejects)
qed

text \<open>
  A channel journal with the chapters P and N: with the Chapter N header \<open>0x00 0x53\<close>,
  the pair (5,3), the run returns \<open>PARSER_UNEXPECTED_DATA\<close>; with \<open>0x01 0x35\<close>, the pair
  (3,5), it does not.
\<close>

theorem unexpected_data_iff_illegal_pair_witness:
  "observedPairs wire_defs
       (bufferOf [0x20, 0, 1, 0x02, 0x20, 0, 1, 2, 3, 0x00, 0x53, 9, 9] :: 32 buffer) \<lparr>cursor = 0, minimumLen = 0\<rparr>
     = [(5, 3)]
   \<and> illegalPair (5, 3)
   \<and> fst (decodeJournalSection wire_defs
        (bufferOf [0x20, 0, 1, 0x02, 0x20, 0, 1, 2, 3, 0x00, 0x53, 9, 9] :: 32 buffer) \<lparr>cursor = 0, minimumLen = 0\<rparr>)
       = Returned PARSER_UNEXPECTED_DATA
   \<and> observedPairs wire_defs
       (bufferOf [0x20, 0, 1, 0x02, 0x20, 0, 1, 2, 3, 0x01, 0x35, 9, 9, 9, 9, 9] :: 32 buffer) \<lparr>cursor = 0, minimumLen = 0\<rparr>
     = [(3, 5)]
   \<and> \<not> illegalPair (3, 5)
   \<and> fst (decodeJournalSection wire_defs
        (bufferOf [0x20, 0, 1, 0x02, 0x20, 0, 1, 2, 3, 0x01, 0x35, 9, 9, 9, 9, 9] :: 32 buffer) \<lparr>cursor = 0, minimumLen = 0\<rparr>)
       \<noteq> Returned PARSER_UNEXPECTED_DATA"
  using
    unexpected_data_iff_illegal_pair [of wire_defs
      "bufferOf [0x20, 0, 1, 0x02, 0x20, 0, 1, 2, 3, 0x00, 0x53, 9, 9] :: 32 buffer" "\<lparr>cursor = 0, minimumLen = 0\<rparr>"]
    unexpected_data_iff_illegal_pair [of wire_defs
      "bufferOf [0x20, 0, 1, 0x02, 0x20, 0, 1, 2, 3, 0x01, 0x35, 9, 9, 9, 9, 9] :: 32 buffer" "\<lparr>cursor = 0, minimumLen = 0\<rparr>"]
  by (simp add: observedPairs_def channelJournal_pairs_def chapterN_pairs_def illegalPair_def
      run_defs word_less_nat_alt)

end
